theory Spec2Isabelle
  imports Main "HOL-Library.AList"
begin

section \<open>Strings as the crawler uses them\<close>

text \<open>
  JavaScript strings are modelled as Isabelle strings, each character read as one code
  unit below 256. The helpers follow \<^verbatim>\<open>String.prototype\<close>: \<^verbatim>\<open>startsWith\<close>,
  \<^verbatim>\<open>endsWith\<close>, \<^verbatim>\<open>trim\<close> and \<^verbatim>\<open>split('\n')\<close>.
\<close>

definition startsWith :: "string \<Rightarrow> string \<Rightarrow> bool" where
  "startsWith s p = (take (length p) s = p)"

definition endsWith :: "string \<Rightarrow> string \<Rightarrow> bool" where
  "endsWith s p = (length p \<le> length s \<and> drop (length s - length p) s = p)"

text \<open>The white space \<^verbatim>\<open>trim\<close> removes, among the code units below 256: tab, line feed,
  vertical tab, form feed, carriage return, space and the no-break space.\<close>

definition is_space :: "char \<Rightarrow> bool" where
  "is_space c = (c \<in> {CHR 0x09, CHR 0x0A, CHR 0x0B, CHR 0x0C, CHR 0x0D, CHR 0x20, CHR 0xA0})"

definition trim :: "string \<Rightarrow> string" where
  "trim s = rev (dropWhile is_space (rev (dropWhile is_space s)))"

text \<open>\<^verbatim>\<open>text.split('\n')\<close>: the pieces between line feeds; the empty text has one empty piece.\<close>

fun split_lines :: "string \<Rightarrow> string list" where
  "split_lines [] = [[]]"
| "split_lines (c # cs) =
     (if c = CHR 0x0A then [] # split_lines cs
      else (c # hd (split_lines cs)) # tl (split_lines cs))"

section \<open>Domain Feed Aggregator: \<^verbatim>\<open>fetchDomains\<close>\<close>

text \<open>A JavaScript \<^verbatim>\<open>Set\<close> of strings keeps insertion order; \<^verbatim>\<open>add\<close> of a member changes
  nothing. \<^verbatim>\<open>Array.from(set)\<close> is then the list itself.\<close>

definition set_add :: "'a \<Rightarrow> 'a list \<Rightarrow> 'a list" where
  "set_add x xs = (if x \<in> set xs then xs else xs @ [x])"

text \<open>The callback of the first \<^verbatim>\<open>forEach\<close> (exact-domain list).\<close>

definition exact_line :: "string \<Rightarrow> string list \<Rightarrow> string list" where
  "exact_line domain domains =
     (let trimmed = trim domain
      in if trimmed \<noteq> [] \<and> \<not> startsWith trimmed ''#'' then set_add trimmed domains
         else domains)"

text \<open>\<^verbatim>\<open>trimmed.replace(/^\*\./, '')\<close>: one leading \<^verbatim>\<open>*.\<close> is removed, if there is one.\<close>

definition strip_wildcard :: "string \<Rightarrow> string" where
  "strip_wildcard s = (if startsWith s ''*.'' then drop 2 s else s)"

text \<open>The callback of the second \<^verbatim>\<open>forEach\<close> (wildcard list).\<close>

definition wildcard_line :: "string \<Rightarrow> string list \<Rightarrow> string list" where
  "wildcard_line domain domains =
     (let trimmed = trim domain
      in if trimmed \<noteq> [] \<and> \<not> startsWith trimmed ''#''
         then (let cleaned = strip_wildcard trimmed
               in if cleaned \<noteq> [] then set_add cleaned domains else domains)
         else domains)"

text \<open>
  The two feeds are the arguments: \<open>None\<close> when the fetch (or reading its body) throws,
  which the \<^verbatim>\<open>try\<close> block turns into no contribution, otherwise the text of the body.
\<close>

definition fetchDomains :: "string option \<Rightarrow> string option \<Rightarrow> string list" where
  "fetchDomains domainsText wildcardsText =
     (let domains = [];
          domains = (case domainsText of
                       None \<Rightarrow> domains
                     | Some t \<Rightarrow> fold exact_line (split_lines t) domains);
          domains = (case wildcardsText of
                       None \<Rightarrow> domains
                     | Some t \<Rightarrow> fold wildcard_line (split_lines t) domains)
      in domains)"

section \<open>Errors\<close>

text \<open>Every exception of the source is a value: what a rejected promise or a \<^verbatim>\<open>throw\<close>
  carries, by the operation that raised it.\<close>

datatype error =
    MkdirError
  | ReaddirError
  | StatError
  | ReadError
  | WriteError
  | SyntaxError
  | TypeError
  | RendererError

section \<open>Scan State Store\<close>

text \<open>
  The values \<^verbatim>\<open>JSON.parse\<close> gives. A number is kept by its rendering
  (\<^verbatim>\<open>Number.prototype.toString\<close>): \<^verbatim>\<open>0\<close> is zero (also the negative zero, which
  \<^verbatim>\<open>JSON.stringify\<close> writes as \<^verbatim>\<open>0\<close>), and \<^verbatim>\<open>Infinity\<close> and \<^verbatim>\<open>-Infinity\<close> are what a
  literal beyond the range of a double parses to. An object is the list of its own
  properties, in the order of enumeration, each name once.
\<close>

datatype json =
    JNull
  | JBool bool
  | JNum string
  | JStr string
  | JArr "json list"
  | JObj "(string \<times> json) list"

text \<open>
  What the text \<^verbatim>\<open>JSON.stringify(v, null, 2)\<close> parses to: \<open>v\<close> itself, but for the numbers
  that are not finite, which are written as \<^verbatim>\<open>null\<close>. Limits of the engine (depth of
  nesting, length of a string) are not modelled.
\<close>

primrec written :: "json \<Rightarrow> json" where
  "written JNull = JNull"
| "written (JBool b) = JBool b"
| "written (JNum n) = (if n = ''Infinity'' \<or> n = ''-Infinity'' then JNull else JNum n)"
| "written (JStr s) = JStr s"
| "written (JArr xs) = JArr (map written xs)"
| "written (JObj ps) = JObj (map (map_prod id written) ps)"

text \<open>The values that count as true in \<^verbatim>\<open>v || []\<close>.\<close>

definition truthy :: "json \<Rightarrow> bool" where
  "truthy v =
     (case v of
        JNull \<Rightarrow> False
      | JBool b \<Rightarrow> b
      | JNum n \<Rightarrow> n \<noteq> ''0''
      | JStr s \<Rightarrow> s \<noteq> []
      | JArr xs \<Rightarrow> True
      | JObj ps \<Rightarrow> True)"

text \<open>
  Reading and writing the properties \<^verbatim>\<open>scanned\<close> and \<^verbatim>\<open>lastUpdate\<close> of a value that is not
  \<^verbatim>\<open>null\<close>. No prototype has a property of these names, so a read gives the object's own
  property or \<^verbatim>\<open>undefined\<close> (\<open>None\<close>). The module is not in strict mode: an assignment
  to a property of a boolean, a number or a string does nothing; on an array it sets a
  property that \<^verbatim>\<open>JSON.stringify\<close> does not write and that \<open>main\<close> does not read
  afterwards, so the array is kept as it is.
\<close>

definition get_prop :: "json \<Rightarrow> string \<Rightarrow> json option" where
  "get_prop j k = (case j of JObj ps \<Rightarrow> map_of ps k | _ \<Rightarrow> None)"

definition set_prop :: "json \<Rightarrow> string \<Rightarrow> json \<Rightarrow> json" where
  "set_prop j k v = (case j of JObj ps \<Rightarrow> JObj (AList.update k v ps) | _ \<Rightarrow> j)"

text \<open>
  The text of \<^verbatim>\<open>stat/scanned.json\<close> is represented by what \<^verbatim>\<open>JSON.parse\<close> makes of it:
  \<open>StatsGarbled\<close> is a text on which it throws, \<open>StatsJson v\<close> a text that parses to the
  value \<open>v\<close>, of whatever shape.
\<close>

datatype stats_text = StatsGarbled | StatsJson json

text \<open>The directory \<^verbatim>\<open>stat\<close>: the file, if there is one, and whether reading or writing
  it fails (permissions, a device error). A failure is persistent: an operation that
  fails does so at each call of the run.\<close>

record state_store =
  stat_file :: "stats_text option"
  stat_read_fails :: bool
  stat_write_fails :: bool

definition readFile_stats :: "state_store \<Rightarrow> error + stats_text" where
  "readFile_stats ss =
     (if stat_read_fails ss then Inl ReadError
      else case stat_file ss of None \<Rightarrow> Inl ReadError | Some t \<Rightarrow> Inr t)"

definition JSON_parse_stats :: "stats_text \<Rightarrow> error + json" where
  "JSON_parse_stats t = (case t of StatsGarbled \<Rightarrow> Inl SyntaxError | StatsJson v \<Rightarrow> Inr v)"

text \<open>\<^verbatim>\<open>{ scanned: [], lastUpdate: null }\<close>\<close>

definition default_stats :: json where
  "default_stats = JObj [(''scanned'', JArr []), (''lastUpdate'', JNull)]"

text \<open>\<^verbatim>\<open>loadScannedDomains\<close>: the \<^verbatim>\<open>catch\<close> takes every exception of the \<^verbatim>\<open>try\<close> block, so the
  function has no error result. What \<^verbatim>\<open>JSON.parse\<close> returns is returned as it is.\<close>

definition loadScannedDomains :: "state_store \<Rightarrow> json" where
  "loadScannedDomains ss =
     (case readFile_stats ss of
        Inl e \<Rightarrow> default_stats
      | Inr data \<Rightarrow>
          (case JSON_parse_stats data of
             Inl e \<Rightarrow> default_stats
           | Inr v \<Rightarrow> v))"

text \<open>\<^verbatim>\<open>saveScannedDomains\<close>: a whole-file overwrite; a write that fails leaves the store as
  it was.\<close>

definition saveScannedDomains :: "state_store \<Rightarrow> json \<Rightarrow> error + state_store" where
  "saveScannedDomains ss data =
     (if stat_write_fails ss then Inl WriteError
      else Inr (ss\<lparr>stat_file := Some (StatsJson (written data))\<rparr>))"

section \<open>Result Store\<close>

definition MAX_FILE_SIZE :: nat where
  "MAX_FILE_SIZE = 20 * 1024 * 1024"

text \<open>The record the page script of \<open>crawlDomain\<close> builds for each form and each of its
  fields. (\<^verbatim>\<open>extractFormData\<close> builds the same record and is never called.)\<close>

record form_field =
  field_type :: string
  field_name :: string
  field_id :: string
  field_placeholder :: string
  field_required :: bool
  field_options :: "string list option"

record form_data =
  form_url :: string
  form_action :: string
  form_method :: string
  form_fields :: "form_field list"

text \<open>
  What \<^verbatim>\<open>JSON.parse\<close> makes of a shard's text: it throws (\<open>ShardGarbled\<close>), or gives a
  value. Spreading the value (\<^verbatim>\<open>[...existingForms, ...forms]\<close>) throws a \<^verbatim>\<open>TypeError\<close>
  when it is not iterable (an object, a number, a boolean, null) and gives its elements
  when it is (\<open>Rows\<close>: an array of records).
\<close>

datatype shard_json = NotIterable | Rows "form_data list"

datatype shard_text = ShardGarbled | ShardJson shard_json

record shard_file =
  shard_size :: nat
  shard_content :: shard_text

text \<open>
  The directory \<^verbatim>\<open>result\<close>: its entries by name, in the order \<^verbatim>\<open>readdir\<close> lists them, and
  which operations fail, on which names (persistently, as for the state file). A path
  under \<^verbatim>\<open>RESULT_DIR\<close> is represented by the file's name.
  \<open>written_size\<close> is the byte length of \<^verbatim>\<open>JSON.stringify(allForms, null, 2)\<close>.
\<close>

record result_store =
  shards :: "(string \<times> shard_file) list"
  readdir_fails :: bool
  stat_fails :: "string \<Rightarrow> bool"
  read_fails :: "string \<Rightarrow> bool"
  write_fails :: "string \<Rightarrow> bool"
  written_size :: "form_data list \<Rightarrow> nat"

definition readdir :: "result_store \<Rightarrow> error + string list" where
  "readdir rs = (if readdir_fails rs then Inl ReaddirError else Inr (map fst (shards rs)))"

definition stat :: "result_store \<Rightarrow> string \<Rightarrow> error + nat" where
  "stat rs f =
     (if stat_fails rs f then Inl StatError
      else case map_of (shards rs) f of None \<Rightarrow> Inl StatError | Some sf \<Rightarrow> Inr (shard_size sf))"

definition readFile :: "result_store \<Rightarrow> string \<Rightarrow> error + shard_text" where
  "readFile rs f =
     (if read_fails rs f then Inl ReadError
      else case map_of (shards rs) f of None \<Rightarrow> Inl ReadError | Some sf \<Rightarrow> Inr (shard_content sf))"

definition JSON_parse :: "shard_text \<Rightarrow> error + shard_json" where
  "JSON_parse t = (case t of ShardGarbled \<Rightarrow> Inl SyntaxError | ShardJson v \<Rightarrow> Inr v)"

text \<open>\<^verbatim>\<open>fs.writeFile(filePath, JSON.stringify(allForms, null, 2))\<close>: the file is replaced, or
  created as a new entry; a write that fails leaves the store as it was.\<close>

definition writeFile :: "result_store \<Rightarrow> string \<Rightarrow> form_data list \<Rightarrow> error + result_store" where
  "writeFile rs f allForms =
     (if write_fails rs f then Inl WriteError
      else Inr (rs\<lparr>shards :=
             AList.update f \<lparr>shard_size = written_size rs allForms,
                             shard_content = ShardJson (Rows allForms)\<rparr> (shards rs)\<rparr>))"

subsection \<open>The index of a shard's name\<close>

definition is_digit :: "char \<Rightarrow> bool" where
  "is_digit c = (c \<in> set ''0123456789'')"

definition digit_val :: "char \<Rightarrow> nat" where
  "digit_val c = of_char c - 48"

text \<open>\<^verbatim>\<open>parseInt\<close> on a string of decimal digits. The source computes in double precision:
  the model is exact for values below \<open>2 ^ 53\<close>.\<close>

definition parseInt :: "string \<Rightarrow> nat" where
  "parseInt ds = foldl (\<lambda>n c. 10 * n + digit_val c) 0 ds"

text \<open>
  The regular expression \<^verbatim>\<open>/forms(_(\d+))?\.json/\<close> tried at the start of a string:
  \<open>None\<close> when it does not match there, otherwise the second group (\<open>None\<close> when the
  optional group took nothing). After \<^verbatim>\<open>forms\<close> the group needs an underscore and the
  rest of the pattern a dot, so at most one of the two ways matches.
\<close>

definition match_here :: "string \<Rightarrow> string option option" where
  "match_here s =
     (if startsWith s ''forms'' then
        (let r = drop 5 s in
         if startsWith r ''_'' \<and> takeWhile is_digit (drop 1 r) \<noteq> []
              \<and> startsWith (dropWhile is_digit (drop 1 r)) ''.json''
         then Some (Some (takeWhile is_digit (drop 1 r)))
         else if startsWith r ''.json'' then Some None
         else None)
      else None)"

text \<open>\<^verbatim>\<open>name.match(...)\<close> without anchors: the leftmost position where the pattern matches.\<close>

fun regex_match :: "string \<Rightarrow> string option option" where
  "regex_match [] = match_here []"
| "regex_match (c # cs) =
     (case match_here (c # cs) of Some g \<Rightarrow> Some g | None \<Rightarrow> regex_match cs)"

text \<open>\<^verbatim>\<open>numA && numA[2] ? parseInt(numA[2]) : 0\<close>\<close>

definition shard_index :: "string \<Rightarrow> nat" where
  "shard_index a = (case regex_match a of Some (Some ds) \<Rightarrow> parseInt ds | _ \<Rightarrow> 0)"

text \<open>The decimal digits of a number, as a template literal renders an integer below
  \<open>10 ^ 21\<close>.\<close>

fun show_nat :: "nat \<Rightarrow> string" where
  "show_nat n =
     (if n < 10 then [char_of (48 + n)]
      else show_nat (n div 10) @ [char_of (48 + n mod 10)])"

declare show_nat.simps [simp del]

subsection \<open>\<^verbatim>\<open>getNextResultFile\<close> and \<^verbatim>\<open>saveResults\<close>\<close>

text \<open>\<^verbatim>\<open>files.filter(f => f.startsWith('forms') && f.endsWith('.json'))\<close>\<close>

definition formFiles_of :: "string list \<Rightarrow> string list" where
  "formFiles_of files = filter (\<lambda>f. startsWith f ''forms'' \<and> endsWith f ''.json'') files"

text \<open>\<^verbatim>\<open>formFiles.sort((a, b) => indexB - indexA)\<close>: \<^verbatim>\<open>Array.prototype.sort\<close> is stable, so
  the names are in descending order of index and names of equal index keep their order.\<close>

definition sort_formFiles :: "string list \<Rightarrow> string list" where
  "sort_formFiles formFiles = sort_key (\<lambda>f. - int (shard_index f)) formFiles"

definition getNextResultFile :: "result_store \<Rightarrow> error + (string \<times> shard_json)" where
  "getNextResultFile rs =
     (let files = (case readdir rs of Inl e \<Rightarrow> [] | Inr fs \<Rightarrow> fs);
          formFiles = formFiles_of files
      in if length formFiles = 0 then Inr (''forms.json'', Rows [])
         else
           (let formFiles = sort_formFiles formFiles;
                lastFile = hd formFiles;
                stats = (case stat rs lastFile of Inl e \<Rightarrow> None | Inr sz \<Rightarrow> Some sz)
            in if (case stats of None \<Rightarrow> False | Some sz \<Rightarrow> sz < MAX_FILE_SIZE) then
                 (case readFile rs lastFile of
                    Inl e \<Rightarrow> Inl e
                  | Inr t \<Rightarrow>
                      (case JSON_parse t of
                         Inl e \<Rightarrow> Inl e
                       | Inr data \<Rightarrow> Inr (lastFile, data)))
               else
                 (let lastIndex = regex_match (hd formFiles);
                      nextIndex = (case lastIndex of
                                     Some (Some ds) \<Rightarrow> parseInt ds + 1
                                   | _ \<Rightarrow> 1)
                  in Inr (''forms_'' @ show_nat nextIndex @ ''.json'', Rows []))))"

definition saveResults :: "result_store \<Rightarrow> form_data list \<Rightarrow> error + result_store" where
  "saveResults rs forms =
     (case getNextResultFile rs of
        Inl e \<Rightarrow> Inl e
      | Inr (filePath, existingForms) \<Rightarrow>
          (case existingForms of
             NotIterable \<Rightarrow> Inl TypeError
           | Rows existing \<Rightarrow> writeFile rs filePath (existing @ forms)))"

section \<open>Frontier Crawler: \<^verbatim>\<open>crawlDomain\<close>\<close>

text \<open>
  The renderer during the crawl of one domain: which of its calls throw, and what the
  pages hold. A URL is navigated at most once in a crawl, so a page's behaviour is a
  function of its URL: \<open>page_forms\<close> is what the first \<^verbatim>\<open>page.evaluate\<close> returns there
  (\<open>None\<close> when it throws), \<open>page_anchors\<close> the \<^verbatim>\<open>href\<close>s of its anchors in document order
  (\<open>None\<close> when the second \<^verbatim>\<open>page.evaluate\<close> throws), and \<open>url_hostname\<close> is
  \<^verbatim>\<open>new URL(href).hostname\<close> (\<open>None\<close> when the constructor throws).
\<close>

record renderer =
  launch_fails :: bool
  newContext_fails :: bool
  newPage_fails :: bool
  close_fails :: bool
  goto_fails :: "string \<Rightarrow> bool"
  page_forms :: "string \<Rightarrow> form_data list option"
  page_anchors :: "string \<Rightarrow> string list option"
  url_hostname :: "string \<Rightarrow> string option"

text \<open>\<^verbatim>\<open>domain.replace(/^https?:\/\//, '').replace(/^www\./, '')\<close>\<close>

definition strip_scheme :: "string \<Rightarrow> string" where
  "strip_scheme s =
     (if startsWith s ''https://'' then drop 8 s
      else if startsWith s ''http://'' then drop 7 s
      else s)"

definition strip_www :: "string \<Rightarrow> string" where
  "strip_www s = (if startsWith s ''www.'' then drop 4 s else s)"

definition baseDomain_of :: "string \<Rightarrow> string" where
  "baseDomain_of domain = strip_www (strip_scheme domain)"

text \<open>The filter of the link script, run with \<^verbatim>\<open>domain = baseDomain\<close>.\<close>

definition same_site :: "renderer \<Rightarrow> string \<Rightarrow> string \<Rightarrow> bool" where
  "same_site r domain href =
     (case url_hostname r href of
        None \<Rightarrow> False
      | Some h \<Rightarrow>
          (let linkDomain = strip_www h
           in linkDomain = domain \<or> endsWith linkDomain (''.'' @ domain)))"

text \<open>The variables of the visit loop. \<open>visited\<close> is a \<^verbatim>\<open>Set\<close>, kept as the list of its
  members in insertion order: its \<^verbatim>\<open>size\<close> is the length of the list.\<close>

record crawl_state =
  toVisit :: "string list"
  visited :: "string list"
  forms :: "form_data list"

text \<open>\<^verbatim>\<open>if (!visited.has(link) && toVisit.length < 100) toVisit.push(link)\<close>\<close>

definition enqueue :: "string \<Rightarrow> crawl_state \<Rightarrow> crawl_state" where
  "enqueue link s =
     (if link \<notin> set (visited s) \<and> length (toVisit s) < 100
      then s\<lparr>toVisit := toVisit s @ [link]\<rparr>
      else s)"

text \<open>The \<^verbatim>\<open>try\<close> block of one page with its \<^verbatim>\<open>catch\<close>: an exception ends the page with
  what was done before it.\<close>

definition visit_page :: "renderer \<Rightarrow> string \<Rightarrow> string \<Rightarrow> crawl_state \<Rightarrow> crawl_state" where
  "visit_page r baseDomain url s =
     (if goto_fails r url then s
      else case page_forms r url of
             None \<Rightarrow> s
           | Some pageForms \<Rightarrow>
               (let s1 = s\<lparr>forms := forms s @ pageForms\<rparr>
                in case page_anchors r url of
                     None \<Rightarrow> s1
                   | Some anchors \<Rightarrow>
                       (let links = filter (same_site r baseDomain) anchors
                        in fold enqueue (take 10 links) s1)))"

text \<open>One round of the \<^verbatim>\<open>while\<close> body: \<^verbatim>\<open>shift\<close>, the \<^verbatim>\<open>continue\<close> on a visited URL,
  \<^verbatim>\<open>visited.add\<close>, the page. The loop's guard keeps the queue non-empty here, so the
  first case is never taken.\<close>

definition crawl_step :: "renderer \<Rightarrow> string \<Rightarrow> crawl_state \<Rightarrow> crawl_state" where
  "crawl_step r baseDomain s =
     (case toVisit s of
        [] \<Rightarrow> s
      | url # rest \<Rightarrow>
          (let s1 = s\<lparr>toVisit := rest\<rparr>
           in if url \<in> set (visited s1) then s1
              else visit_page r baseDomain url (s1\<lparr>visited := set_add url (visited s1)\<rparr>)))"

definition loop_continues :: "crawl_state \<Rightarrow> bool" where
  "loop_continues s = (length (toVisit s) > 0 \<and> length (visited s) < 50)"

lemma visited_enqueue: "visited (enqueue l s) = visited s"
  by (simp add: enqueue_def)

lemma visited_fold_enqueue: "visited (fold enqueue ls s) = visited s"
  by (induction ls arbitrary: s) (simp_all add: visited_enqueue)

lemma visited_visit_page: "visited (visit_page r b u s) = visited s"
  by (simp add: visit_page_def visited_fold_enqueue Let_def split: option.splits)

lemma crawl_step_measure:
  assumes "loop_continues s"
  shows "length (visited (crawl_step r b s)) > length (visited s)
         \<or> (visited (crawl_step r b s) = visited s
            \<and> length (toVisit (crawl_step r b s)) < length (toVisit s))"
proof (cases "toVisit s")
  case Nil
  with assms show ?thesis by (simp add: loop_continues_def)
next
  case (Cons url rest)
  then show ?thesis
    by (simp add: crawl_step_def Let_def visited_visit_page set_add_def)
qed

function crawl_loop :: "renderer \<Rightarrow> string \<Rightarrow> crawl_state \<Rightarrow> crawl_state" where
  "crawl_loop r baseDomain s =
     (if loop_continues s then crawl_loop r baseDomain (crawl_step r baseDomain s) else s)"
  by pat_completeness auto
termination
proof (relation "measures [\<lambda>(r, b, s). 50 - length (visited s), \<lambda>(r, b, s). length (toVisit s)]")
  show "wf (measures [\<lambda>(r, b, s). 50 - length (visited s), \<lambda>(r, b, s). length (toVisit s)])"
    by simp
next
  fix r :: renderer and baseDomain :: string and s :: crawl_state
  assume c: "loop_continues s"
  from crawl_step_measure [OF c, of r baseDomain] c
  show "((r, baseDomain, crawl_step r baseDomain s), (r, baseDomain, s))
        \<in> measures [\<lambda>(r, b, s). 50 - length (visited s), \<lambda>(r, b, s). length (toVisit s)]"
    by (auto simp: loop_continues_def)
qed

declare crawl_loop.simps [simp del]

text \<open>The state after \<open>n\<close> rounds of the loop (it stays at the state where the loop ends).\<close>

fun crawl_rounds :: "nat \<Rightarrow> renderer \<Rightarrow> string \<Rightarrow> crawl_state \<Rightarrow> crawl_state" where
  "crawl_rounds 0 r baseDomain s = s"
| "crawl_rounds (Suc n) r baseDomain s =
     (if loop_continues s then crawl_rounds n r baseDomain (crawl_step r baseDomain s) else s)"

text \<open>The three root URLs, pushed while \<open>visited\<close> is empty.\<close>

definition seed :: "string \<Rightarrow> crawl_state" where
  "seed domain =
     fold (\<lambda>url s. if url \<notin> set (visited s) then s\<lparr>toVisit := toVisit s @ [url]\<rparr> else s)
       [''https://'' @ domain, ''https://www.'' @ domain, ''http://'' @ domain]
       \<lparr>toVisit = [], visited = [], forms = []\<rparr>"

text \<open>
  What one call of \<^verbatim>\<open>crawlDomain\<close> leaves: the forms or the exception, whether the
  browser was launched, and whether \<^verbatim>\<open>browser.close()\<close> was called.
\<close>

record crawl_result =
  outcome :: "error + form_data list"
  browser_launched :: bool
  close_called :: bool

definition crawlDomain :: "renderer \<Rightarrow> string \<Rightarrow> crawl_result" where
  "crawlDomain r domain =
     (if launch_fails r then
        \<lparr>outcome = Inl RendererError, browser_launched = False, close_called = False\<rparr>
      else if newContext_fails r then
        \<lparr>outcome = Inl RendererError, browser_launched = True, close_called = False\<rparr>
      else if newPage_fails r then
        \<lparr>outcome = Inl RendererError, browser_launched = True, close_called = False\<rparr>
      else
        (let baseDomain = baseDomain_of domain;
             s = crawl_loop r baseDomain (seed domain)
         in if close_fails r then
              \<lparr>outcome = Inl RendererError, browser_launched = True, close_called = True\<rparr>
            else
              \<lparr>outcome = Inr (forms s), browser_launched = True, close_called = True\<rparr>))"

section \<open>Run Controller: \<^verbatim>\<open>main\<close>\<close>

definition MAX_DOMAIN_ATTEMPTS :: nat where
  "MAX_DOMAIN_ATTEMPTS = 10"

text \<open>
  What a run meets outside the two stores: whether creating the directories fails, the
  two feeds (as for \<open>fetchDomains\<close>), the renderer's behaviour during the crawl of each
  domain, and the clock: \<open>clock w k\<close> is what the \<open>k\<close>-th evaluation of
  \<^verbatim>\<open>new Date().toISOString()\<close> in the run returns (counting from 0).
\<close>

record world =
  mkdir_result_fails :: bool
  mkdir_stat_fails :: bool
  domains_feed :: "string option"
  wildcards_feed :: "string option"
  renderer_of :: "string \<Rightarrow> renderer"
  clock :: "nat \<Rightarrow> string"

text \<open>
  The variables of \<open>main\<close> and the two stores. \<open>crawled\<close> is not a variable of the source:
  it lists the arguments of the calls of \<^verbatim>\<open>crawlDomain\<close>, in order. Console output is
  left out.
\<close>

record run_state =
  stats :: json
  state_files :: state_store
  result_files :: result_store
  ticks :: nat
  formsFound :: bool
  crawled :: "string list"

definition ensureDirectories :: "world \<Rightarrow> error + unit" where
  "ensureDirectories w =
     (if mkdir_result_fails w then Inl MkdirError
      else if mkdir_stat_fails w then Inl MkdirError
      else Inr ())"

text \<open>
  \<^verbatim>\<open>new Set(stats.scanned || [])\<close>, as the list of the set's members. Reading a property
  of \<^verbatim>\<open>null\<close> throws; a value that is not true gives the empty set; an array gives its
  elements and a string its characters; any other value is not iterable and the
  constructor throws.
\<close>

definition scannedSet_of :: "json \<Rightarrow> error + json list" where
  "scannedSet_of stats0 =
     (case stats0 of
        JNull \<Rightarrow> Inl TypeError
      | _ \<Rightarrow>
          (case get_prop stats0 ''scanned'' of
             None \<Rightarrow> Inr []
           | Some v \<Rightarrow>
               if \<not> truthy v then Inr []
               else (case v of
                       JArr xs \<Rightarrow> Inr xs
                     | JStr s \<Rightarrow> Inr (map (\<lambda>c. JStr [c]) s)
                     | _ \<Rightarrow> Inl TypeError)))"

text \<open>
  \<^verbatim>\<open>stats.scanned.push(domainToCrawl)\<close>: it throws a \<^verbatim>\<open>TypeError\<close> unless \<open>stats\<close> is an
  object whose property \<^verbatim>\<open>scanned\<close> is an array.
\<close>

definition push_scanned :: "json \<Rightarrow> string \<Rightarrow> error + json" where
  "push_scanned stats0 domainToCrawl =
     (case get_prop stats0 ''scanned'' of
        Some (JArr xs) \<Rightarrow> Inr (set_prop stats0 ''scanned'' (JArr (xs @ [JStr domainToCrawl])))
      | _ \<Rightarrow> Inl TypeError)"

text \<open>
  \<^verbatim>\<open>stats.scanned.push(domainToCrawl); stats.lastUpdate = ...; await saveScannedDomains(stats)\<close>,
  the three statements that end the \<^verbatim>\<open>try\<close> block and make up the \<^verbatim>\<open>catch\<close> block. The
  result is the exception, if one is thrown, and the state it leaves.
\<close>

definition mark_scanned :: "world \<Rightarrow> string \<Rightarrow> run_state \<Rightarrow> error option \<times> run_state" where
  "mark_scanned w domainToCrawl st =
     (case push_scanned (stats st) domainToCrawl of
        Inl e \<Rightarrow> (Some e, st)
      | Inr stats1 \<Rightarrow>
          (let stats2 = set_prop stats1 ''lastUpdate'' (JStr (clock w (ticks st)));
               st1 = st\<lparr>stats := stats2, ticks := ticks st + 1\<rparr>
           in case saveScannedDomains (state_files st1) stats2 of
                Inl e \<Rightarrow> (Some e, st1)
              | Inr ss \<Rightarrow> (None, st1\<lparr>state_files := ss\<rparr>)))"

text \<open>The \<^verbatim>\<open>try\<close> block of one attempt (lines 267 to 281).\<close>

definition try_block :: "world \<Rightarrow> string \<Rightarrow> run_state \<Rightarrow> error option \<times> run_state" where
  "try_block w domainToCrawl st =
     (let st0 = st\<lparr>crawled := crawled st @ [domainToCrawl]\<rparr>
      in case outcome (crawlDomain (renderer_of w domainToCrawl) domainToCrawl) of
           Inl e \<Rightarrow> (Some e, st0)
         | Inr found \<Rightarrow>
             (if length found > 0 then
                (case saveResults (result_files st0) found of
                   Inl e \<Rightarrow> (Some e, st0)
                 | Inr rs \<Rightarrow>
                     mark_scanned w domainToCrawl (st0\<lparr>result_files := rs, formsFound := True\<rparr>))
              else mark_scanned w domainToCrawl st0))"

text \<open>One attempt: the \<^verbatim>\<open>try\<close> block, and the \<^verbatim>\<open>catch\<close> block on any exception of it. An
  exception of the \<^verbatim>\<open>catch\<close> block leaves \<open>main\<close>.\<close>

definition attempt :: "world \<Rightarrow> string \<Rightarrow> run_state \<Rightarrow> error option \<times> run_state" where
  "attempt w domainToCrawl st =
     (case try_block w domainToCrawl st of
        (None, st1) \<Rightarrow> (None, st1)
      | (Some e, st1) \<Rightarrow> mark_scanned w domainToCrawl st1)"

text \<open>The \<^verbatim>\<open>while\<close> loop of \<open>main\<close>, with \<open>domainIndex\<close> as an argument. The index is below
  the length of \<open>unscannedDomains\<close> whenever it is used.\<close>

function main_loop ::
  "world \<Rightarrow> string list \<Rightarrow> nat \<Rightarrow> run_state \<Rightarrow> error option \<times> run_state" where
  "main_loop w unscannedDomains domainIndex st =
     (if \<not> formsFound st
         \<and> domainIndex < min (length unscannedDomains) MAX_DOMAIN_ATTEMPTS then
        (case attempt w (unscannedDomains ! domainIndex) st of
           (Some e, st1) \<Rightarrow> (Some e, st1)
         | (None, st1) \<Rightarrow> main_loop w unscannedDomains (domainIndex + 1) st1)
      else (None, st))"
  by pat_completeness auto
termination
  by (relation "measure (\<lambda>(w, u, i, st). min (length u) MAX_DOMAIN_ATTEMPTS - i)") auto

declare main_loop.simps [simp del]

text \<open>
  \<open>main\<close>, from the two stores as the run finds them. The result is the exception that
  leaves \<open>main\<close>, if one does, and the state at the end. When the directories cannot be
  created nothing has been fetched or read, and the state returned shows the stores
  untouched and no crawl.
\<close>

definition main :: "world \<Rightarrow> state_store \<Rightarrow> result_store \<Rightarrow> error option \<times> run_state" where
  "main w ss rs =
     (case ensureDirectories w of
        Inl e \<Rightarrow>
          (Some e, \<lparr>stats = default_stats, state_files = ss, result_files = rs,
                     ticks = 0, formsFound = False, crawled = []\<rparr>)
      | Inr u \<Rightarrow>
          (let allDomains = fetchDomains (domains_feed w) (wildcards_feed w);
               stats0 = loadScannedDomains ss;
               st = \<lparr>stats = stats0, state_files = ss, result_files = rs,
                     ticks = 0, formsFound = False, crawled = []\<rparr>
           in case scannedSet_of stats0 of
                Inl e \<Rightarrow> (Some e, st)
              | Inr scannedSet \<Rightarrow>
                  (let unscannedDomains = filter (\<lambda>d. JStr d \<notin> set scannedSet) allDomains
                   in if length unscannedDomains = 0 then
                        (let stats1 = set_prop (set_prop stats0 ''scanned'' (JArr []))
                                        ''lastUpdate'' (JStr (clock w (ticks st)));
                             st1 = st\<lparr>stats := stats1, ticks := ticks st + 1\<rparr>
                         in case saveScannedDomains (state_files st1) stats1 of
                              Inl e \<Rightarrow> (Some e, st1)
                            | Inr ss1 \<Rightarrow> (None, st1\<lparr>state_files := ss1\<rparr>))
                      else main_loop w unscannedDomains 0 st)))"

section \<open>Notions used in the statements\<close>

text \<open>
  The documents of the shape \<^verbatim>\<open>{scanned: [string], lastUpdate: string | null}\<close>, which
  \<open>saveScannedDomains\<close> is meant to hold.
\<close>

record scan_state =
  scanned :: "string list"
  lastUpdate :: "string option"

definition scan_doc :: "scan_state \<Rightarrow> json" where
  "scan_doc s =
     JObj [(''scanned'', JArr (map JStr (scanned s))),
           (''lastUpdate'', case lastUpdate s of None \<Rightarrow> JNull | Some t \<Rightarrow> JStr t)]"

text \<open>The list \<open>unscannedDomains\<close> that \<open>main\<close> computes, or the exception of line 246: the
  collected domains that are not members of the set made of \<open>scanned\<close> of the state
  loaded, in the order of collection.\<close>

definition unscanned_of :: "world \<Rightarrow> state_store \<Rightarrow> error + string list" where
  "unscanned_of w ss =
     (case scannedSet_of (loadScannedDomains ss) of
        Inl e \<Rightarrow> Inl e
      | Inr scannedSet \<Rightarrow>
          Inr (filter (\<lambda>d. JStr d \<notin> set scannedSet)
                 (fetchDomains (domains_feed w) (wildcards_feed w))))"

text \<open>The lines of a feed that was fetched, and the test both callbacks make on a line:
  its trimmed form is not empty and does not start with \<^verbatim>\<open>#\<close>.\<close>

definition feed_lines :: "string option \<Rightarrow> string list" where
  "feed_lines t = (case t of None \<Rightarrow> [] | Some x \<Rightarrow> split_lines x)"

definition kept_line :: "string \<Rightarrow> bool" where
  "kept_line l = (trim l \<noteq> [] \<and> \<not> startsWith (trim l) ''#'')"

text \<open>Names whose index \<open>parseInt\<close> gives exactly (below \<open>2 ^ 53\<close>): when the names that
  pass the filter are such, the model of the comparator and of \<open>nextIndex\<close> is the source's
  arithmetic.\<close>

definition exact_indices :: "string list \<Rightarrow> bool" where
  "exact_indices files = list_all (\<lambda>f. shard_index f < 2 ^ 53) files"

text \<open>The name \<^verbatim>\<open>forms_${nextIndex}.json\<close> allocated after the shard \<open>lastFile\<close>.\<close>

definition new_shard_name :: "string \<Rightarrow> string" where
  "new_shard_name lastFile = ''forms_'' @ show_nat (shard_index lastFile + 1) @ ''.json''"

text \<open>\<^verbatim>\<open>formFiles[0]\<close> after the sort, for a listing \<open>files\<close> of the directory.\<close>

definition lastFile_of :: "string list \<Rightarrow> string" where
  "lastFile_of files = hd (sort_formFiles (formFiles_of files))"

text \<open>\<^verbatim>\<open>links.slice(0, 10)\<close> for the page at \<open>url\<close>: the first ten same-site links, none when
  the link script throws.\<close>

definition considered_links :: "renderer \<Rightarrow> string \<Rightarrow> string \<Rightarrow> string list" where
  "considered_links r baseDomain url =
     (case page_anchors r url of
        None \<Rightarrow> []
      | Some anchors \<Rightarrow> take 10 (filter (same_site r baseDomain) anchors))"

text \<open>The two caps of the visit loop.\<close>

definition within_caps :: "crawl_state \<Rightarrow> bool" where
  "within_caps s = (length (visited s) \<le> 50 \<and> length (toVisit s) \<le> 100)"

text \<open>A crawl that yields no form: it raised, or it returned an empty list. The run
  treats the two alike.\<close>

definition no_forms :: "error + form_data list \<Rightarrow> bool" where
  "no_forms res = (case res of Inl e \<Rightarrow> True | Inr found \<Rightarrow> found = [])"

text \<open>What \<^verbatim>\<open>await crawlDomain(d)\<close> gives in the world \<open>w\<close>.\<close>

definition crawl_of :: "world \<Rightarrow> string \<Rightarrow> error + form_data list" where
  "crawl_of w d = outcome (crawlDomain (renderer_of w d) d)"

text \<open>The variables after the push has given \<open>stats1\<close> and \<^verbatim>\<open>stats.lastUpdate\<close> has been
  refreshed, and the state store after \<open>stats\<close> has been written to it.\<close>

definition stamped :: "world \<Rightarrow> json \<Rightarrow> run_state \<Rightarrow> run_state" where
  "stamped w stats1 st =
     st\<lparr>stats := set_prop stats1 ''lastUpdate'' (JStr (clock w (ticks st))),
        ticks := ticks st + 1\<rparr>"

definition persisted :: "run_state \<Rightarrow> run_state" where
  "persisted st =
     st\<lparr>state_files := (state_files st)\<lparr>stat_file := Some (StatsJson (written (stats st)))\<rparr>\<rparr>"

section \<open>Example stores and runs\<close>

text \<open>Concrete inputs on which the theorems below are instantiated.\<close>

definition login_form :: form_data where
  "login_form =
     \<lparr>form_url = ''https://b.com'', form_action = ''https://b.com/login'',
      form_method = ''post'',
      form_fields =
        [\<lparr>field_type = ''text'', field_name = ''user'', field_id = ''u'',
          field_placeholder = [], field_required = True, field_options = None\<rparr>]\<rparr>"

definition search_form :: form_data where
  "search_form =
     \<lparr>form_url = ''https://b.com'', form_action = ''https://b.com/search'',
      form_method = ''get'', form_fields = []\<rparr>"

definition healthy_store :: "(string \<times> shard_file) list \<Rightarrow> result_store" where
  "healthy_store entries =
     \<lparr>shards = entries, readdir_fails = False, stat_fails = (\<lambda>f. False),
      read_fails = (\<lambda>f. False), write_fails = (\<lambda>f. False),
      written_size = (\<lambda>rows. 2 + 200 * length rows)\<rparr>"

definition three_shards :: "(string \<times> shard_file) list" where
  "three_shards =
     [(''forms_1.json'', \<lparr>shard_size = 20971520, shard_content = ShardJson (Rows [])\<rparr>),
      (''notes.txt'', \<lparr>shard_size = 5, shard_content = ShardGarbled\<rparr>),
      (''forms_2.json'', \<lparr>shard_size = 202, shard_content = ShardJson (Rows [login_form])\<rparr>),
      (''forms.json'', \<lparr>shard_size = 20971520, shard_content = ShardJson (Rows [])\<rparr>)]"

definition full_shards :: "(string \<times> shard_file) list" where
  "full_shards =
     [(''forms.json'', \<lparr>shard_size = 20971520, shard_content = ShardJson (Rows [])\<rparr>),
      (''forms_1.json'', \<lparr>shard_size = 20971520, shard_content = ShardJson (Rows [login_form])\<rparr>)]"

definition backup_only :: result_store where
  "backup_only =
     healthy_store
       [(''forms_backup.json'',
         \<lparr>shard_size = 202, shard_content = ShardJson (Rows [login_form])\<rparr>)]"

definition unlistable_store :: result_store where
  "unlistable_store =
     (healthy_store
        [(''forms.json'', \<lparr>shard_size = 202, shard_content = ShardJson (Rows [login_form])\<rparr>)])
     \<lparr>readdir_fails := True\<rparr>"

definition unstattable_store :: result_store where
  "unstattable_store = (healthy_store three_shards)\<lparr>stat_fails := (\<lambda>f. f = ''forms_2.json'')\<rparr>"

definition dead_renderer :: renderer where
  "dead_renderer =
     \<lparr>launch_fails = False, newContext_fails = False, newPage_fails = False,
      close_fails = False, goto_fails = (\<lambda>u. True), page_forms = (\<lambda>u. None),
      page_anchors = (\<lambda>u. None), url_hostname = (\<lambda>u. None)\<rparr>"

definition form_renderer :: renderer where
  "form_renderer =
     \<lparr>launch_fails = False, newContext_fails = False, newPage_fails = False,
      close_fails = False, goto_fails = (\<lambda>u. u \<noteq> ''https://b.com''),
      page_forms = (\<lambda>u. Some [login_form, search_form]),
      page_anchors = (\<lambda>u. Some [''https://b.com'', ''https://evil.org/x'']),
      url_hostname = (\<lambda>u. if u = ''https://b.com'' then Some ''b.com''
                           else if u = ''https://evil.org/x'' then Some ''evil.org'' else None)\<rparr>"

definition feed_ab :: string where
  "feed_ab = ''a.com'' @ [CHR 0x0A] @ ''b.com''"

definition feed_ba :: string where
  "feed_ba = ''b.com'' @ [CHR 0x0A] @ ''a.com''"

definition example_world :: world where
  "example_world =
     \<lparr>mkdir_result_fails = False, mkdir_stat_fails = False,
      domains_feed = Some feed_ab, wildcards_feed = None,
      renderer_of = (\<lambda>d. if d = ''b.com'' then form_renderer else dead_renderer),
      clock = (\<lambda>k. ''T'' @ show_nat k)\<rparr>"

definition reversed_world :: world where
  "reversed_world = example_world\<lparr>domains_feed := Some feed_ba\<rparr>"

definition no_state :: state_store where
  "no_state = \<lparr>stat_file = None, stat_read_fails = False, stat_write_fails = False\<rparr>"

definition all_scanned :: state_store where
  "all_scanned =
     \<lparr>stat_file =
        Some (StatsJson (scan_doc \<lparr>scanned = [''b.com'', ''a.com''], lastUpdate = Some ''T''\<rparr>)),
      stat_read_fails = False, stat_write_fails = False\<rparr>"

definition empty_object_state :: state_store where
  "empty_object_state =
     \<lparr>stat_file = Some (StatsJson (JObj [])), stat_read_fails = False,
      stat_write_fails = False\<rparr>"

definition null_state :: state_store where
  "null_state =
     \<lparr>stat_file = Some (StatsJson JNull), stat_read_fails = False, stat_write_fails = False\<rparr>"

definition garbled_shard_store :: result_store where
  "garbled_shard_store =
     healthy_store [(''forms.json'', \<lparr>shard_size = 7, shard_content = ShardGarbled\<rparr>)]"

definition readonly_store :: result_store where
  "readonly_store = (healthy_store [])\<lparr>write_fails := (\<lambda>f. True)\<rparr>"

section \<open>Properties of the Domain Feed Aggregator\<close>

lemma set_set_add: "set (set_add x xs) = insert x (set xs)"
  by (auto simp: set_add_def)

lemma distinct_set_add: "distinct xs \<Longrightarrow> distinct (set_add x xs)"
  by (simp add: set_add_def)

lemma set_fold_exact:
  "set (fold exact_line ls acc) = set acc \<union> trim ` {l \<in> set ls. kept_line l}"
  by (induction ls arbitrary: acc) (auto simp: exact_line_def kept_line_def set_set_add Let_def)

lemma set_fold_wildcard:
  "set (fold wildcard_line ls acc) =
     set acc \<union> (\<lambda>l. strip_wildcard (trim l)) `
                 {l \<in> set ls. kept_line l \<and> strip_wildcard (trim l) \<noteq> []}"
  by (induction ls arbitrary: acc)
     (auto simp: wildcard_line_def kept_line_def set_set_add Let_def)

lemma distinct_fold_exact: "distinct acc \<Longrightarrow> distinct (fold exact_line ls acc)"
  by (induction ls arbitrary: acc) (simp_all add: exact_line_def distinct_set_add Let_def)

lemma distinct_fold_wildcard: "distinct acc \<Longrightarrow> distinct (fold wildcard_line ls acc)"
  by (induction ls arbitrary: acc) (simp_all add: wildcard_line_def distinct_set_add Let_def)

text \<open>
  C8, as the code has it. The collected list holds no empty string and no entry twice, and
  its entries are exactly: the trimmed form of every line of the exact-domain feed that is
  kept (not blank, not a \<^verbatim>\<open>#\<close> comment), taken as it stands; and the trimmed form of
  every kept line of the wildcard feed with one leading \<^verbatim>\<open>*.\<close> removed, when something
  is left. Nothing else is normalised: no scheme, \<^verbatim>\<open>www.\<close> or further wildcard marker is
  removed.
\<close>

theorem fetchDomains_entries:
  "set (fetchDomains a b) =
     trim ` {l \<in> set (feed_lines a). kept_line l}
     \<union> (\<lambda>l. strip_wildcard (trim l)) `
         {l \<in> set (feed_lines b). kept_line l \<and> strip_wildcard (trim l) \<noteq> []}
   \<and> [] \<notin> set (fetchDomains a b)
   \<and> distinct (fetchDomains a b)"
proof -
  have s: "set (fetchDomains a b) =
     trim ` {l \<in> set (feed_lines a). kept_line l}
     \<union> (\<lambda>l. strip_wildcard (trim l)) `
         {l \<in> set (feed_lines b). kept_line l \<and> strip_wildcard (trim l) \<noteq> []}"
    by (cases a; cases b)
       (simp_all add: fetchDomains_def feed_lines_def set_fold_exact set_fold_wildcard)
  have e: "[] \<notin> set (fetchDomains a b)"
    unfolding s by (auto simp: kept_line_def)
  have d: "distinct (fetchDomains a b)"
    by (cases a; cases b)
       (simp_all add: fetchDomains_def distinct_fold_exact distinct_fold_wildcard)
  from s e d show ?thesis by blast
qed

text \<open>
  C8 as the specification words it fails: a line \<^verbatim>\<open>*.example.com\<close> of the exact-domain
  feed is collected with its wildcard prefix, and a line \<^verbatim>\<open>www.example.com\<close> with its
  \<^verbatim>\<open>www.\<close>.
\<close>

theorem fetchDomains_keeps_wildcard_prefix:
  "fetchDomains (Some ''*.example.com'') None = [''*.example.com'']
   \<and> startsWith ''*.example.com'' ''*.''
   \<and> fetchDomains (Some ''www.example.com'') None = [''www.example.com'']
   \<and> startsWith ''www.example.com'' ''www.''"
  by code_simp

section \<open>Properties of the Result Store\<close>

lemma digit_char_not_zero:
  assumes "0 < n" "n < 10"
  shows "char_of (48 + n :: nat) \<noteq> CHR ''0''"
proof
  assume "char_of (48 + n) = CHR ''0''"
  then have "(of_char (char_of (48 + n)) :: nat) = of_char CHR ''0''" by simp
  then have "(48 + n) mod 256 = 48" by simp
  with assms show False by simp
qed

lemma show_nat_nonempty: "show_nat n \<noteq> []"
  by (subst show_nat.simps) simp

lemma hd_show_nat: "0 < n \<Longrightarrow> hd (show_nat n) \<noteq> CHR ''0''"
proof (induction n rule: show_nat.induct)
  case (1 n)
  show ?case
  proof (cases "n < 10")
    case True
    with 1(2) show ?thesis by (subst show_nat.simps) (simp add: digit_char_not_zero)
  next
    case False
    then have "0 < n div 10" by simp
    with 1(1) False have "hd (show_nat (n div 10)) \<noteq> CHR ''0''" by simp
    with False show ?thesis
      by (subst show_nat.simps) (simp add: show_nat_nonempty)
  qed
qed

lemma show_nat_no_leading_zero: "0 < n \<Longrightarrow> \<not> startsWith (show_nat n) ''0''"
  using hd_show_nat [of n] show_nat_nonempty [of n]
  by (cases "show_nat n") (auto simp: startsWith_def)

lemma nextIndex_eq:
  "(case regex_match a of Some (Some ds) \<Rightarrow> parseInt ds + 1 | _ \<Rightarrow> 1) = shard_index a + 1"
  by (simp add: shard_index_def split: option.splits)

lemma hd_sort_key_min:
  assumes "xs \<noteq> []"
  shows "hd (sort_key k xs) \<in> set xs \<and> (\<forall>y\<in>set xs. k (hd (sort_key k xs)) \<le> k y)"
proof -
  from assms have ne: "sort_key k xs \<noteq> []" using length_sort [of k xs] by (cases xs) auto
  then obtain z zs where z: "sort_key k xs = z # zs" by (cases "sort_key k xs") auto
  have "sorted (map k (sort_key k xs))" by (rule sorted_sort_key)
  with z have "\<forall>y\<in>set zs. k z \<le> k y" by simp
  moreover have "set (z # zs) = set xs" using z set_sort[of k xs] by simp
  ultimately show ?thesis using z by auto
qed

lemma hd_sort_key_first:
  assumes "xs \<noteq> []"
  shows "hd (sort_key k xs) = hd (filter (\<lambda>y. k y = k (hd (sort_key k xs))) xs)"
proof -
  from assms have ne: "sort_key k xs \<noteq> []" using length_sort [of k xs] by (cases xs) auto
  then obtain z zs where z: "sort_key k xs = z # zs" by (cases "sort_key k xs") auto
  have "filter (\<lambda>y. k y = k z) (sort_key k xs) = filter (\<lambda>y. k y = k z) xs"
    by (rule sort_key_stable)
  with z have "filter (\<lambda>y. k y = k z) xs = z # filter (\<lambda>y. k y = k z) zs" by simp
  then show ?thesis using z by simp
qed

lemma sort_formFiles_descending:
  "sorted_wrt (\<lambda>a b. shard_index b \<le> shard_index a) (sort_formFiles fs)"
proof -
  have "sorted (map (\<lambda>f. - int (shard_index f)) (sort_formFiles fs))"
    unfolding sort_formFiles_def by (rule sorted_sort_key)
  then show ?thesis by (simp add: sorted_map sorted_wrt_iff_nth_less)
qed

lemma top_is_highest:
  assumes "fs \<noteq> []"
  shows "hd (sort_formFiles fs) \<in> set fs
       \<and> (\<forall>f\<in>set fs. shard_index f \<le> shard_index (hd (sort_formFiles fs)))"
  using hd_sort_key_min [OF assms, of "\<lambda>f. - int (shard_index f)"]
  by (simp add: sort_formFiles_def)

lemma top_is_first_of_highest:
  assumes "fs \<noteq> []"
  shows "hd (sort_formFiles fs)
       = hd (filter (\<lambda>f. shard_index f = shard_index (hd (sort_formFiles fs))) fs)"
  using hd_sort_key_first [OF assms, of "\<lambda>f. - int (shard_index f)"]
  by (simp add: sort_formFiles_def)

lemma getNextResultFile_empty:
  assumes "formFiles_of (case readdir rs of Inl e \<Rightarrow> [] | Inr fs \<Rightarrow> fs) = []"
  shows "getNextResultFile rs = Inr (''forms.json'', Rows [])"
  using assms by (simp add: getNextResultFile_def Let_def)

lemma getNextResultFile_nonempty:
  assumes "readdir rs = Inr files" and "formFiles_of files \<noteq> []"
  shows "getNextResultFile rs =
     (let lastFile = hd (sort_formFiles (formFiles_of files))
      in case stat rs lastFile of
           Inl e \<Rightarrow> Inr (new_shard_name lastFile, Rows [])
         | Inr sz \<Rightarrow>
             if sz < MAX_FILE_SIZE then
               (case readFile rs lastFile of
                  Inl e \<Rightarrow> Inl e
                | Inr t \<Rightarrow> (case JSON_parse t of Inl e \<Rightarrow> Inl e | Inr data \<Rightarrow> Inr (lastFile, data)))
             else Inr (new_shard_name lastFile, Rows []))"
  using assms
  by (simp add: getNextResultFile_def Let_def new_shard_name_def nextIndex_eq
        split: sum.splits)

lemma digit_char:
  assumes "k < 10"
  shows "is_digit (char_of (48 + k :: nat)) \<and> digit_val (char_of (48 + k)) = k"
proof -
  have v: "digit_val (char_of (48 + k)) = k"
    using assms by (simp add: digit_val_def)
  from assms have "k \<in> {0, 1, 2, 3, 4, 5, 6, 7, 8, 9}" by (simp; arith)
  then have "is_digit (char_of (48 + k))"
    by (elim insertE emptyE; hypsubst; code_simp)
  with v show ?thesis by simp
qed

lemma show_nat_digits: "\<forall>c\<in>set (show_nat n). is_digit c"
proof (induction n rule: show_nat.induct)
  case (1 n)
  show ?case
  proof (cases "n < 10")
    case True
    then show ?thesis by (subst show_nat.simps) (simp add: digit_char)
  next
    case False
    with 1 show ?thesis by (subst show_nat.simps) (simp add: digit_char)
  qed
qed

lemma parseInt_snoc: "parseInt (ds @ [c]) = 10 * parseInt ds + digit_val c"
  by (simp add: parseInt_def)

lemma parseInt_show_nat: "parseInt (show_nat n) = n"
proof (induction n rule: show_nat.induct)
  case (1 n)
  show ?case
  proof (cases "n < 10")
    case True
    then show ?thesis by (subst show_nat.simps) (simp add: parseInt_def digit_char)
  next
    case False
    with 1 have "parseInt (show_nat (n div 10)) = n div 10" by simp
    with False show ?thesis
      by (subst show_nat.simps) (simp add: parseInt_snoc digit_char)
  qed
qed

lemma takeWhile_digits:
  assumes "\<forall>c\<in>set ds. is_digit c"
  shows "takeWhile is_digit (ds @ ''.json'') = ds \<and> dropWhile is_digit (ds @ ''.json'') = ''.json''"
proof -
  have "\<not> is_digit CHR ''.''" by code_simp
  with assms show ?thesis
    by (simp add: takeWhile_append2 dropWhile_append2)
qed

lemma regex_match_numbered:
  assumes "\<forall>c\<in>set ds. is_digit c" and "ds \<noteq> []"
  shows "regex_match (''forms_'' @ ds @ ''.json'') = Some (Some ds)"
proof -
  have "match_here (''forms_'' @ ds @ ''.json'') = Some (Some ds)"
    using takeWhile_digits [OF assms(1)] assms(2)
    by (simp add: match_here_def startsWith_def)
  then show ?thesis by simp
qed

lemma shard_index_new_name:
  "shard_index (''forms_'' @ show_nat n @ ''.json'') = n"
  using regex_match_numbered [OF show_nat_digits show_nat_nonempty, of n]
  by (simp add: shard_index_def parseInt_show_nat)

lemma new_name_is_formFile:
  "startsWith (''forms_'' @ ds @ ''.json'') ''forms'' \<and> endsWith (''forms_'' @ ds @ ''.json'') ''.json''"
  by (simp add: startsWith_def endsWith_def)

lemma new_shard_name_fresh:
  assumes "formFiles_of files \<noteq> []"
  shows "new_shard_name (lastFile_of files) \<notin> set files"
proof
  let ?n = "new_shard_name (lastFile_of files)"
  assume "?n \<in> set files"
  then have "?n \<in> set (formFiles_of files)"
    using new_name_is_formFile [of "show_nat (shard_index (lastFile_of files) + 1)"]
    by (simp add: formFiles_of_def new_shard_name_def)
  with top_is_highest [OF assms] have "shard_index ?n \<le> shard_index (lastFile_of files)"
    by (simp add: lastFile_of_def)
  moreover have "shard_index ?n = shard_index (lastFile_of files) + 1"
    unfolding new_shard_name_def by (rule shard_index_new_name)
  ultimately show False by simp
qed

text \<open>
  C2, as the code has it. Take a directory that can be listed and in which the numbers
  in the names considered are below \<open>2 ^ 53\<close>. \<open>getNextResultFile\<close> considers the entries
  whose names start with \<^verbatim>\<open>forms\<close> and end with \<^verbatim>\<open>.json\<close> (\<open>formFiles_of\<close>); a name in
  which the pattern does not match, or matches without a number, has index 0. With none
  it targets \<^verbatim>\<open>forms.json\<close> with no existing records. Otherwise it sorts them by index,
  descending, and takes the first, an entry of highest index (the first such entry of
  the listing). When the size of that entry is below \<open>MAX_FILE_SIZE\<close>, the entry is read
  and parsed: it is the target and the value parsed is the existing content, and a
  failure of the read or of the parse is raised. When its size is at or over the
  ceiling, or cannot be had, the target is a new shard named by the highest index plus
  one, with no existing records; that number is never written with a leading \<^verbatim>\<open>0\<close>,
  and no entry of the listing has the new name.
\<close>

theorem getNextResultFile_selection:
  assumes "readdir rs = Inr files" and "exact_indices (formFiles_of files)"
  shows
    "(formFiles_of files = [] \<longrightarrow> getNextResultFile rs = Inr (''forms.json'', Rows []))
   \<and> (formFiles_of files \<noteq> [] \<longrightarrow>
        set (sort_formFiles (formFiles_of files)) = set (formFiles_of files)
      \<and> sorted_wrt (\<lambda>a b. shard_index b \<le> shard_index a) (sort_formFiles (formFiles_of files))
      \<and> lastFile_of files \<in> set (formFiles_of files)
      \<and> (\<forall>f\<in>set (formFiles_of files). shard_index f \<le> shard_index (lastFile_of files))
      \<and> lastFile_of files
          = hd (filter (\<lambda>f. shard_index f = shard_index (lastFile_of files)) (formFiles_of files))
      \<and> (\<forall>sz data. stat rs (lastFile_of files) = Inr sz \<and> sz < MAX_FILE_SIZE
              \<and> readFile rs (lastFile_of files) = Inr (ShardJson data)
            \<longrightarrow> getNextResultFile rs = Inr (lastFile_of files, data))
      \<and> (\<forall>sz e. stat rs (lastFile_of files) = Inr sz \<and> sz < MAX_FILE_SIZE
              \<and> readFile rs (lastFile_of files) = Inl e
            \<longrightarrow> getNextResultFile rs = Inl e)
      \<and> (\<forall>sz. stat rs (lastFile_of files) = Inr sz \<and> sz < MAX_FILE_SIZE
              \<and> readFile rs (lastFile_of files) = Inr ShardGarbled
            \<longrightarrow> getNextResultFile rs = Inl SyntaxError)
      \<and> (\<forall>sz. stat rs (lastFile_of files) = Inr sz \<and> MAX_FILE_SIZE \<le> sz
            \<longrightarrow> getNextResultFile rs = Inr (new_shard_name (lastFile_of files), Rows []))
      \<and> (\<forall>e. stat rs (lastFile_of files) = Inl e
            \<longrightarrow> getNextResultFile rs = Inr (new_shard_name (lastFile_of files), Rows []))
      \<and> new_shard_name (lastFile_of files)
          = ''forms_'' @ show_nat (shard_index (lastFile_of files) + 1) @ ''.json''
      \<and> \<not> startsWith (show_nat (shard_index (lastFile_of files) + 1)) ''0''
      \<and> new_shard_name (lastFile_of files) \<notin> set files)"
proof (intro conjI impI)
  assume "formFiles_of files = []"
  with assms(1) show "getNextResultFile rs = Inr (''forms.json'', Rows [])"
    by (simp add: getNextResultFile_empty)
next
  assume ne: "formFiles_of files \<noteq> []"
  show "set (sort_formFiles (formFiles_of files)) = set (formFiles_of files)"
    by (simp add: sort_formFiles_def)
  show "sorted_wrt (\<lambda>a b. shard_index b \<le> shard_index a) (sort_formFiles (formFiles_of files))"
    by (rule sort_formFiles_descending)
  from top_is_highest [OF ne]
  show "lastFile_of files \<in> set (formFiles_of files)"
    and "\<forall>f\<in>set (formFiles_of files). shard_index f \<le> shard_index (lastFile_of files)"
    by (simp_all add: lastFile_of_def)
  from top_is_first_of_highest [OF ne]
  show "lastFile_of files
          = hd (filter (\<lambda>f. shard_index f = shard_index (lastFile_of files)) (formFiles_of files))"
    by (simp add: lastFile_of_def)
  note g = getNextResultFile_nonempty [OF assms(1) ne]
  show "\<forall>sz data. stat rs (lastFile_of files) = Inr sz \<and> sz < MAX_FILE_SIZE
              \<and> readFile rs (lastFile_of files) = Inr (ShardJson data)
            \<longrightarrow> getNextResultFile rs = Inr (lastFile_of files, data)"
    by (simp add: g lastFile_of_def JSON_parse_def)
  show "\<forall>sz e. stat rs (lastFile_of files) = Inr sz \<and> sz < MAX_FILE_SIZE
              \<and> readFile rs (lastFile_of files) = Inl e
            \<longrightarrow> getNextResultFile rs = Inl e"
    by (simp add: g lastFile_of_def)
  show "\<forall>sz. stat rs (lastFile_of files) = Inr sz \<and> sz < MAX_FILE_SIZE
              \<and> readFile rs (lastFile_of files) = Inr ShardGarbled
            \<longrightarrow> getNextResultFile rs = Inl SyntaxError"
    by (simp add: g lastFile_of_def JSON_parse_def)
  show "\<forall>sz. stat rs (lastFile_of files) = Inr sz \<and> MAX_FILE_SIZE \<le> sz
            \<longrightarrow> getNextResultFile rs = Inr (new_shard_name (lastFile_of files), Rows [])"
    by (simp add: g lastFile_of_def)
  show "\<forall>e. stat rs (lastFile_of files) = Inl e
            \<longrightarrow> getNextResultFile rs = Inr (new_shard_name (lastFile_of files), Rows [])"
    by (simp add: g lastFile_of_def)
  show "new_shard_name (lastFile_of files)
          = ''forms_'' @ show_nat (shard_index (lastFile_of files) + 1) @ ''.json''"
    by (simp add: new_shard_name_def)
  show "\<not> startsWith (show_nat (shard_index (lastFile_of files) + 1)) ''0''"
    by (rule show_nat_no_leading_zero) simp
  show "new_shard_name (lastFile_of files) \<notin> set files"
    by (rule new_shard_name_fresh [OF ne])
qed

lemma three_files: "readdir (healthy_store three_shards)
    = Inr [''forms_1.json'', ''notes.txt'', ''forms_2.json'', ''forms.json'']"
  by (simp add: readdir_def healthy_store_def three_shards_def)

lemma three_index:
  "shard_index ''forms_1.json'' = 1" "shard_index ''notes.txt'' = 0"
  "shard_index ''forms_2.json'' = 2" "shard_index ''forms.json'' = 0"
  by code_simp+


lemma three_formFiles:
  "formFiles_of [''forms_1.json'', ''notes.txt'', ''forms_2.json'', ''forms.json'']
   = [''forms_1.json'', ''forms_2.json'', ''forms.json'']"
  by code_simp

lemma three_exact:
  "exact_indices
     (formFiles_of [''forms_1.json'', ''notes.txt'', ''forms_2.json'', ''forms.json''])"
  unfolding three_formFiles by (simp add: exact_indices_def three_index)

lemma three_last:
  "lastFile_of [''forms_1.json'', ''notes.txt'', ''forms_2.json'', ''forms.json'']
   = ''forms_2.json''"
  by code_simp

lemma three_stat: "stat (healthy_store three_shards) ''forms_2.json'' = Inr 202"
  by (simp add: stat_def healthy_store_def three_shards_def)

lemma three_read: "readFile (healthy_store three_shards) ''forms_2.json''
   = Inr (ShardJson (Rows [login_form]))"
  by (simp add: readFile_def healthy_store_def three_shards_def)

lemma full_files: "readdir (healthy_store full_shards) = Inr [''forms.json'', ''forms_1.json'']"
  by (simp add: readdir_def healthy_store_def full_shards_def)


lemma full_formFiles:
  "formFiles_of [''forms.json'', ''forms_1.json''] = [''forms.json'', ''forms_1.json'']"
  by code_simp

lemma full_exact: "exact_indices (formFiles_of [''forms.json'', ''forms_1.json''])"
  unfolding full_formFiles by (simp add: exact_indices_def three_index)

lemma full_last: "lastFile_of [''forms.json'', ''forms_1.json''] = ''forms_1.json''"
  by code_simp

lemma full_stat: "stat (healthy_store full_shards) ''forms_1.json'' = Inr 20971520"
  by (simp add: stat_def healthy_store_def full_shards_def)

lemma full_next: "new_shard_name ''forms_1.json'' = ''forms_2.json''"
  by code_simp

lemma garbled_files: "readdir garbled_shard_store = Inr [''forms.json'']"
  by (simp add: readdir_def garbled_shard_store_def healthy_store_def)

lemma garbled_formFiles: "formFiles_of [''forms.json''] = [''forms.json'']"
  by code_simp

lemma garbled_exact: "exact_indices (formFiles_of [''forms.json''])"
  unfolding garbled_formFiles by (simp add: exact_indices_def three_index)

lemma garbled_last: "lastFile_of [''forms.json''] = ''forms.json''"
  by code_simp

lemma garbled_stat: "stat garbled_shard_store ''forms.json'' = Inr 7"
  by (simp add: stat_def garbled_shard_store_def healthy_store_def)

lemma garbled_read: "readFile garbled_shard_store ''forms.json'' = Inr ShardGarbled"
  by (simp add: readFile_def garbled_shard_store_def healthy_store_def)

theorem getNextResultFile_selection_witness:
  "getNextResultFile (healthy_store three_shards) = Inr (''forms_2.json'', Rows [login_form])
   \<and> getNextResultFile (healthy_store full_shards) = Inr (''forms_2.json'', Rows [])
   \<and> getNextResultFile garbled_shard_store = Inl SyntaxError"
proof -
  let ?files = "[''forms_1.json'', ''notes.txt'', ''forms_2.json'', ''forms.json'']"
  let ?full = "[''forms.json'', ''forms_1.json'']"
  have ne: "formFiles_of ?files \<noteq> []"
    unfolding three_formFiles by simp
  have small: "(202::nat) < MAX_FILE_SIZE"
    by (simp add: MAX_FILE_SIZE_def)
  from getNextResultFile_selection [OF three_files three_exact] ne
  have "\<forall>sz data. stat (healthy_store three_shards) (lastFile_of ?files) = Inr sz
            \<and> sz < MAX_FILE_SIZE
            \<and> readFile (healthy_store three_shards) (lastFile_of ?files) = Inr (ShardJson data)
          \<longrightarrow> getNextResultFile (healthy_store three_shards) = Inr (lastFile_of ?files, data)"
    by blast
  then have "stat (healthy_store three_shards) ''forms_2.json'' = Inr 202
            \<and> 202 < MAX_FILE_SIZE
            \<and> readFile (healthy_store three_shards) ''forms_2.json''
                = Inr (ShardJson (Rows [login_form]))
          \<longrightarrow> getNextResultFile (healthy_store three_shards)
                = Inr (''forms_2.json'', Rows [login_form])"
    unfolding three_last by blast
  with three_stat small three_read
  have below: "getNextResultFile (healthy_store three_shards)
      = Inr (''forms_2.json'', Rows [login_form])"
    by blast
  have ne2: "formFiles_of ?full \<noteq> []"
    unfolding full_formFiles by simp
  have big: "MAX_FILE_SIZE \<le> (20971520::nat)"
    by (simp add: MAX_FILE_SIZE_def)
  from getNextResultFile_selection [OF full_files full_exact] ne2
  have "\<forall>sz. stat (healthy_store full_shards) (lastFile_of ?full) = Inr sz
            \<and> MAX_FILE_SIZE \<le> sz
          \<longrightarrow> getNextResultFile (healthy_store full_shards)
                = Inr (new_shard_name (lastFile_of ?full), Rows [])"
    by blast
  then have "stat (healthy_store full_shards) ''forms_1.json'' = Inr 20971520
            \<and> MAX_FILE_SIZE \<le> 20971520
          \<longrightarrow> getNextResultFile (healthy_store full_shards) = Inr (''forms_2.json'', Rows [])"
    unfolding full_last full_next by blast
  with full_stat big
  have at_ceiling: "getNextResultFile (healthy_store full_shards) = Inr (''forms_2.json'', Rows [])"
    by blast
  have ne3: "formFiles_of [''forms.json''] \<noteq> []"
    unfolding garbled_formFiles by simp
  have tiny: "(7::nat) < MAX_FILE_SIZE"
    by (simp add: MAX_FILE_SIZE_def)
  from getNextResultFile_selection [OF garbled_files garbled_exact] ne3
  have "\<forall>sz. stat garbled_shard_store (lastFile_of [''forms.json'']) = Inr sz
            \<and> sz < MAX_FILE_SIZE
            \<and> readFile garbled_shard_store (lastFile_of [''forms.json'']) = Inr ShardGarbled
          \<longrightarrow> getNextResultFile garbled_shard_store = Inl SyntaxError"
    by blast
  then have "stat garbled_shard_store ''forms.json'' = Inr 7
            \<and> 7 < MAX_FILE_SIZE
            \<and> readFile garbled_shard_store ''forms.json'' = Inr ShardGarbled
          \<longrightarrow> getNextResultFile garbled_shard_store = Inl SyntaxError"
    unfolding garbled_last by blast
  with garbled_stat tiny garbled_read
  have unparsable: "getNextResultFile garbled_shard_store = Inl SyntaxError"
    by blast
  from below at_ceiling unparsable show ?thesis by blast
qed

text \<open>
  C2 as the specification words it fails: a directory whose only entry is
  \<^verbatim>\<open>forms_backup.json\<close>, a name the shard pattern does not match, has that entry chosen
  as the append target.
\<close>

theorem getNextResultFile_takes_other_names:
  "regex_match ''forms_backup.json'' = None
   \<and> getNextResultFile backup_only = Inr (''forms_backup.json'', Rows [login_form])"
proof -
  have m: "regex_match ''forms_backup.json'' = None"
    by code_simp
  have r: "readdir backup_only = Inr [''forms_backup.json'']"
    by (simp add: readdir_def backup_only_def healthy_store_def)
  have f: "formFiles_of [''forms_backup.json''] = [''forms_backup.json'']"
    by code_simp
  have st: "stat backup_only ''forms_backup.json'' = Inr 202"
    by (simp add: stat_def backup_only_def healthy_store_def)
  have rd: "readFile backup_only ''forms_backup.json'' = Inr (ShardJson (Rows [login_form]))"
    by (simp add: readFile_def backup_only_def healthy_store_def)
  have "getNextResultFile backup_only = Inr (''forms_backup.json'', Rows [login_form])"
    using getNextResultFile_nonempty [OF r]
    by (simp add: f sort_formFiles_def st rd JSON_parse_def MAX_FILE_SIZE_def)
  with m show ?thesis by simp
qed

lemma readFile_ok:
  assumes "readFile rs f = Inr t"
  shows "\<not> read_fails rs f \<and> (\<exists>sf. map_of (shards rs) f = Some sf \<and> shard_content sf = t)"
  using assms by (auto simp: readFile_def split: if_splits option.splits)

lemma saveResults_below_ceiling:
  assumes "readdir rs = Inr files" and "formFiles_of files \<noteq> []"
    and "stat rs (lastFile_of files) = Inr sz" and "sz < MAX_FILE_SIZE"
    and "readFile rs (lastFile_of files) = Inr (ShardJson (Rows existing))"
  shows "saveResults rs newForms = writeFile rs (lastFile_of files) (existing @ newForms)"
  using assms
  by (simp add: saveResults_def getNextResultFile_nonempty lastFile_of_def JSON_parse_def)

text \<open>
  C3. When the shard chosen has a size below the ceiling, holds an array \<open>existing\<close>
  and can be written, \<open>saveResults\<close> replaces its content by \<open>existing @ newForms\<close>,
  the existing records first and in their order: the shard holds exactly
  \<open>length newForms\<close> more records, and no other entry of the directory changes.
\<close>

theorem saveResults_appends:
  assumes "readdir rs = Inr files" and "exact_indices (formFiles_of files)"
    and "formFiles_of files \<noteq> []"
    and "stat rs (lastFile_of files) = Inr sz" and "sz < MAX_FILE_SIZE"
    and "readFile rs (lastFile_of files) = Inr (ShardJson (Rows existing))"
    and "\<not> write_fails rs (lastFile_of files)"
  shows "\<exists>rs'. saveResults rs newForms = Inr rs'
      \<and> readFile rs' (lastFile_of files) = Inr (ShardJson (Rows (existing @ newForms)))
      \<and> map_of (shards rs') (lastFile_of files)
          = Some \<lparr>shard_size = written_size rs (existing @ newForms),
                  shard_content = ShardJson (Rows (existing @ newForms))\<rparr>
      \<and> (\<forall>f. f \<noteq> lastFile_of files \<longrightarrow> map_of (shards rs') f = map_of (shards rs) f)
      \<and> map fst (shards rs') = map fst (shards rs)
      \<and> length (existing @ newForms) = length existing + length newForms"
proof -
  let ?t = "lastFile_of files"
  let ?new = "\<lparr>shard_size = written_size rs (existing @ newForms),
               shard_content = ShardJson (Rows (existing @ newForms))\<rparr>"
  let ?rs' = "rs\<lparr>shards := AList.update ?t ?new (shards rs)\<rparr>"
  from readFile_ok [OF assms(6)] obtain sf
    where nf: "\<not> read_fails rs ?t" and sf: "map_of (shards rs) ?t = Some sf" by blast
  from sf have mem: "?t \<in> set (map fst (shards rs))"
    using map_of_SomeD [OF sf] by force
  have s: "saveResults rs newForms = Inr ?rs'"
    using saveResults_below_ceiling [OF assms(1) assms(3) assms(4) assms(5) assms(6)] assms(7)
    by (simp add: writeFile_def)
  have m: "map_of (shards ?rs') ?t = Some ?new"
    by (simp add: update_conv')
  have r: "readFile ?rs' ?t = Inr (ShardJson (Rows (existing @ newForms)))"
    using nf by (simp add: readFile_def update_conv')
  have o: "\<forall>f. f \<noteq> ?t \<longrightarrow> map_of (shards ?rs') f = map_of (shards rs) f"
    by (simp add: update_conv')
  have k: "map fst (shards ?rs') = map fst (shards rs)"
    using mem by (simp add: update_keys)
  from s m r o k show ?thesis by simp
qed

theorem saveResults_appends_witness:
  "\<exists>rs'. saveResults (healthy_store three_shards) [search_form] = Inr rs'
      \<and> readFile rs' ''forms_2.json'' = Inr (ShardJson (Rows [login_form, search_form]))"
proof -
  have small: "(202::nat) < MAX_FILE_SIZE"
    by (simp add: MAX_FILE_SIZE_def)
  have ne: "formFiles_of [''forms_1.json'', ''notes.txt'', ''forms_2.json'', ''forms.json''] \<noteq> []"
    unfolding three_formFiles by simp
  have w: "\<not> write_fails (healthy_store three_shards)
      (lastFile_of [''forms_1.json'', ''notes.txt'', ''forms_2.json'', ''forms.json''])"
    by (simp add: healthy_store_def)
  have st: "stat (healthy_store three_shards)
      (lastFile_of [''forms_1.json'', ''notes.txt'', ''forms_2.json'', ''forms.json'']) = Inr 202"
    unfolding three_last by (rule three_stat)
  have rd: "readFile (healthy_store three_shards)
      (lastFile_of [''forms_1.json'', ''notes.txt'', ''forms_2.json'', ''forms.json''])
      = Inr (ShardJson (Rows [login_form]))"
    unfolding three_last by (rule three_read)
  from saveResults_appends [OF three_files three_exact ne st small rd w, of "[search_form]"]
  obtain rs' where "saveResults (healthy_store three_shards) [search_form] = Inr rs'"
    and "readFile rs'
           (lastFile_of [''forms_1.json'', ''notes.txt'', ''forms_2.json'', ''forms.json''])
         = Inr (ShardJson (Rows ([login_form] @ [search_form])))"
    by blast
  then show ?thesis unfolding three_last by simp
qed

text \<open>
  C10. When listing the directory fails, \<open>getNextResultFile\<close> targets \<^verbatim>\<open>forms.json\<close>
  with no existing records, so \<open>saveResults\<close> writes the new records alone to it,
  replacing what it held. When the \<^verbatim>\<open>stat\<close> of the chosen shard fails, the target is a
  new shard named by that shard's index plus one, a name no entry of the listing has,
  with no existing records.
\<close>

theorem getNextResultFile_degrades:
  "(readdir_fails rs \<longrightarrow>
       getNextResultFile rs = Inr (''forms.json'', Rows [])
     \<and> saveResults rs newForms = writeFile rs ''forms.json'' newForms
     \<and> (\<not> write_fails rs ''forms.json'' \<longrightarrow>
          (\<exists>rs'. saveResults rs newForms = Inr rs'
             \<and> map_of (shards rs') ''forms.json''
                 = Some \<lparr>shard_size = written_size rs newForms,
                         shard_content = ShardJson (Rows newForms)\<rparr>)))
   \<and> (readdir rs = Inr files \<and> exact_indices (formFiles_of files)
        \<and> formFiles_of files \<noteq> [] \<and> stat rs (lastFile_of files) = Inl e \<longrightarrow>
       getNextResultFile rs = Inr (new_shard_name (lastFile_of files), Rows [])
     \<and> new_shard_name (lastFile_of files)
         = ''forms_'' @ show_nat (shard_index (lastFile_of files) + 1) @ ''.json''
     \<and> new_shard_name (lastFile_of files) \<notin> set files)"
proof (intro conjI impI)
  assume f: "readdir_fails rs"
  then show g: "getNextResultFile rs = Inr (''forms.json'', Rows [])"
    by (simp add: getNextResultFile_empty readdir_def formFiles_of_def)
  then show s: "saveResults rs newForms = writeFile rs ''forms.json'' newForms"
    by (simp add: saveResults_def)
  assume "\<not> write_fails rs ''forms.json''"
  with s show "\<exists>rs'. saveResults rs newForms = Inr rs'
             \<and> map_of (shards rs') ''forms.json''
                 = Some \<lparr>shard_size = written_size rs newForms,
                         shard_content = ShardJson (Rows newForms)\<rparr>"
    by (simp add: writeFile_def update_conv')
next
  assume a: "readdir rs = Inr files \<and> exact_indices (formFiles_of files)
        \<and> formFiles_of files \<noteq> [] \<and> stat rs (lastFile_of files) = Inl e"
  then show "getNextResultFile rs = Inr (new_shard_name (lastFile_of files), Rows [])"
    by (simp add: getNextResultFile_nonempty lastFile_of_def)
  show "new_shard_name (lastFile_of files)
         = ''forms_'' @ show_nat (shard_index (lastFile_of files) + 1) @ ''.json''"
    by (simp add: new_shard_name_def)
  from a show "new_shard_name (lastFile_of files) \<notin> set files"
    by (simp add: new_shard_name_fresh)
qed

theorem getNextResultFile_degrades_witness:
  "getNextResultFile unlistable_store = Inr (''forms.json'', Rows [])
   \<and> (\<exists>rs'. saveResults unlistable_store [search_form] = Inr rs'
          \<and> map_of (shards rs') ''forms.json''
              = Some \<lparr>shard_size = 202, shard_content = ShardJson (Rows [search_form])\<rparr>)
   \<and> getNextResultFile unstattable_store = Inr (''forms_3.json'', Rows [])"
proof -
  have f: "readdir_fails unlistable_store"
    by (simp add: unlistable_store_def)
  have w: "\<not> write_fails unlistable_store ''forms.json''"
    by (simp add: unlistable_store_def healthy_store_def)
  have z: "written_size unlistable_store [search_form] = 202"
    by (simp add: unlistable_store_def healthy_store_def)
  have r: "readdir unstattable_store
      = Inr [''forms_1.json'', ''notes.txt'', ''forms_2.json'', ''forms.json'']"
    by (simp add: readdir_def unstattable_store_def healthy_store_def three_shards_def)
  have ne: "formFiles_of [''forms_1.json'', ''notes.txt'', ''forms_2.json'', ''forms.json''] \<noteq> []"
    unfolding three_formFiles by simp
  have st: "stat unstattable_store
      (lastFile_of [''forms_1.json'', ''notes.txt'', ''forms_2.json'', ''forms.json''])
      = Inl StatError"
    unfolding three_last by (simp add: stat_def unstattable_store_def healthy_store_def)
  have n: "new_shard_name ''forms_2.json'' = ''forms_3.json''"
    by code_simp
  note d1 = getNextResultFile_degrades [of unlistable_store "[search_form]"]
  note d2 = getNextResultFile_degrades [where rs = unstattable_store
      and files = "[''forms_1.json'', ''notes.txt'', ''forms_2.json'', ''forms.json'']"
      and e = StatError]
  from d1 f w have one: "getNextResultFile unlistable_store = Inr (''forms.json'', Rows [])"
    and two: "\<exists>rs'. saveResults unlistable_store [search_form] = Inr rs'
          \<and> map_of (shards rs') ''forms.json''
              = Some \<lparr>shard_size = 202, shard_content = ShardJson (Rows [search_form])\<rparr>"
    unfolding z [symmetric] by blast+
  from d2 r three_exact ne st
  have "getNextResultFile unstattable_store
     = Inr (new_shard_name
              (lastFile_of [''forms_1.json'', ''notes.txt'', ''forms_2.json'', ''forms.json'']),
            Rows [])"
    by blast
  then have three: "getNextResultFile unstattable_store = Inr (''forms_3.json'', Rows [])"
    unfolding three_last n .
  from one two three show ?thesis by blast
qed

section \<open>Properties of the Frontier Crawler\<close>

lemma enqueue_queue:
  "\<exists>ks. toVisit (enqueue l s) = toVisit s @ ks \<and> length ks \<le> 1 \<and> set ks \<subseteq> {l}"
  by (simp add: enqueue_def)

lemma fold_enqueue_queue:
  "\<exists>ks. toVisit (fold enqueue ls s) = toVisit s @ ks \<and> length ks \<le> length ls
        \<and> set ks \<subseteq> set ls"
proof (induction ls arbitrary: s)
  case Nil
  then show ?case by simp
next
  case (Cons l ls)
  from enqueue_queue [of l s] obtain k1
    where k1: "toVisit (enqueue l s) = toVisit s @ k1" "length k1 \<le> 1" "set k1 \<subseteq> {l}"
    by blast
  from Cons.IH [of "enqueue l s"] obtain k2
    where k2: "toVisit (fold enqueue ls (enqueue l s)) = toVisit (enqueue l s) @ k2"
      "length k2 \<le> length ls" "set k2 \<subseteq> set ls"
    by blast
  from k1 k2 have "toVisit (fold enqueue (l # ls) s) = toVisit s @ (k1 @ k2)
      \<and> length (k1 @ k2) \<le> length (l # ls) \<and> set (k1 @ k2) \<subseteq> set (l # ls)"
    by auto
  then show ?case by blast
qed

lemma enqueue_cap: "length (toVisit s) \<le> 100 \<Longrightarrow> length (toVisit (enqueue l s)) \<le> 100"
  by (simp add: enqueue_def)

lemma fold_enqueue_cap:
  "length (toVisit s) \<le> 100 \<Longrightarrow> length (toVisit (fold enqueue ls s)) \<le> 100"
  by (induction ls arbitrary: s) (simp_all add: enqueue_cap)

lemma visit_page_queue:
  "\<exists>ks. toVisit (visit_page r b url s) = toVisit s @ ks \<and> length ks \<le> 10
        \<and> set ks \<subseteq> set (considered_links r b url)"
proof (cases "goto_fails r url \<or> page_forms r url = None \<or> page_anchors r url = None")
  case True
  then show ?thesis
    by (auto simp: visit_page_def Let_def split: option.splits)
next
  case False
  then obtain pf anchors where p: "\<not> goto_fails r url" "page_forms r url = Some pf"
    "page_anchors r url = Some anchors" by auto
  let ?ls = "take 10 (filter (same_site r b) anchors)"
  from fold_enqueue_queue [of ?ls "s\<lparr>forms := forms s @ pf\<rparr>"] obtain ks
    where "toVisit (fold enqueue ?ls (s\<lparr>forms := forms s @ pf\<rparr>)) = toVisit s @ ks"
      "length ks \<le> length ?ls" "set ks \<subseteq> set ?ls"
    by auto
  with p have "toVisit (visit_page r b url s) = toVisit s @ ks \<and> length ks \<le> 10
        \<and> set ks \<subseteq> set (considered_links r b url)"
    by (simp add: visit_page_def considered_links_def Let_def)
  then show ?thesis by blast
qed

lemma visit_page_cap:
  "length (toVisit s) \<le> 100 \<Longrightarrow> length (toVisit (visit_page r b url s)) \<le> 100"
  by (simp add: visit_page_def Let_def fold_enqueue_cap split: option.splits)

lemma crawl_step_skip:
  "toVisit s = url # rest \<Longrightarrow> url \<in> set (visited s) \<Longrightarrow> crawl_step r b s = s\<lparr>toVisit := rest\<rparr>"
  by (simp add: crawl_step_def)

lemma crawl_step_caps:
  assumes "within_caps s" and "loop_continues s"
  shows "within_caps (crawl_step r b s)"
proof (cases "toVisit s")
  case Nil
  with assms show ?thesis by (simp add: loop_continues_def)
next
  case (Cons url rest)
  with assms have q: "length rest \<le> 100" and v: "length (visited s) < 50"
    by (simp_all add: within_caps_def loop_continues_def)
  show ?thesis
  proof (cases "url \<in> set (visited s)")
    case True
    with Cons assms q show ?thesis by (simp add: crawl_step_def within_caps_def)
  next
    case False
    with Cons q v show ?thesis
      by (simp add: crawl_step_def within_caps_def visited_visit_page visit_page_cap set_add_def)
  qed
qed

lemma crawl_rounds_caps: "within_caps s \<Longrightarrow> within_caps (crawl_rounds n r b s)"
  by (induction n arbitrary: s) (simp_all add: crawl_step_caps)

lemma crawl_loop_caps: "within_caps s \<Longrightarrow> within_caps (crawl_loop r b s)"
proof (induction r b s rule: crawl_loop.induct)
  case (1 r b s)
  show ?case
  proof (cases "loop_continues s")
    case True
    with 1 show ?thesis by (subst crawl_loop.simps) (simp add: crawl_step_caps)
  next
    case False
    with 1 show ?thesis by (subst crawl_loop.simps) simp
  qed
qed

lemma crawl_loop_rounds: "crawl_loop r b (crawl_rounds n r b s) = crawl_loop r b s"
proof (induction n arbitrary: s)
  case 0
  then show ?case by simp
next
  case (Suc n)
  show ?case
  proof (cases "loop_continues s")
    case True
    with Suc show ?thesis by (simp add: crawl_loop.simps [of r b s])
  next
    case False
    then show ?thesis by simp
  qed
qed

lemma seed_eq:
  "seed d = \<lparr>toVisit = [''https://'' @ d, ''https://www.'' @ d, ''http://'' @ d],
             visited = [], forms = []\<rparr>"
  by (simp add: seed_def)

lemma seed_caps: "within_caps (seed d)"
  by (simp add: seed_eq within_caps_def)

text \<open>
  C6. In the crawl of a domain \<open>d\<close>, after any number of rounds of the visit loop and at
  its end, \<open>visited\<close> holds at most 50 URLs and the queue at most 100. A page appends to
  the queue only links among the first ten same-site links of that page, so at most ten,
  and does not change \<open>visited\<close>. A dequeued URL that is already in \<open>visited\<close> is
  dropped and nothing else changes: \<open>visited\<close> does not grow and no page is loaded.
\<close>

theorem frontier_caps:
  "(\<forall>n. within_caps (crawl_rounds n r (baseDomain_of d) (seed d))
        \<and> crawl_loop r (baseDomain_of d) (crawl_rounds n r (baseDomain_of d) (seed d))
            = crawl_loop r (baseDomain_of d) (seed d))
   \<and> within_caps (crawl_loop r (baseDomain_of d) (seed d))
   \<and> (\<exists>ks. toVisit (visit_page r b url s) = toVisit s @ ks \<and> length ks \<le> 10
          \<and> set ks \<subseteq> set (considered_links r b url))
   \<and> visited (visit_page r b url s) = visited s
   \<and> (toVisit s = url # rest \<and> url \<in> set (visited s)
        \<longrightarrow> crawl_step r b s = s\<lparr>toVisit := rest\<rparr>)"
  using crawl_rounds_caps [OF seed_caps] crawl_loop_caps [OF seed_caps] crawl_loop_rounds
    visit_page_queue [of r b url s] visited_visit_page [of r b url s]
    crawl_step_skip [of s url rest r b]
  by blast

lemma base_b: "baseDomain_of ''b.com'' = ''b.com''"
  by code_simp

lemma base_a: "baseDomain_of ''a.com'' = ''a.com''"
  by code_simp

lemma site_b: "same_site form_renderer ''b.com'' ''https://b.com''"
  "\<not> same_site form_renderer ''b.com'' ''https://evil.org/x''"
  by (simp_all add: same_site_def form_renderer_def strip_www_def startsWith_def endsWith_def)

lemma form_renderer_pages:
  "\<not> goto_fails form_renderer ''https://b.com''"
  "goto_fails form_renderer ''https://www.b.com''"
  "goto_fails form_renderer ''http://b.com''"
  "page_forms form_renderer u = Some [login_form, search_form]"
  "page_anchors form_renderer u = Some [''https://b.com'', ''https://evil.org/x'']"
  by (simp_all add: form_renderer_def)

lemma crawl_loop_continue:
  "loop_continues s \<Longrightarrow> crawl_loop r b s = crawl_loop r b (crawl_step r b s)"
  by (subst crawl_loop.simps) simp

lemma crawl_loop_stop: "\<not> loop_continues s \<Longrightarrow> crawl_loop r b s = s"
  by (subst crawl_loop.simps) simp

lemma crawl_form_b:
  "crawl_loop form_renderer ''b.com'' (seed ''b.com'')
   = \<lparr>toVisit = [],
      visited = [''https://b.com'', ''https://www.b.com'', ''http://b.com''],
      forms = [login_form, search_form]\<rparr>"
proof -
  let ?s0 = "\<lparr>toVisit = [''https://b.com'', ''https://www.b.com'', ''http://b.com''],
              visited = [], forms = []\<rparr>"
  let ?s1 = "\<lparr>toVisit = [''https://www.b.com'', ''http://b.com''],
              visited = [''https://b.com''], forms = [login_form, search_form]\<rparr>"
  let ?s2 = "\<lparr>toVisit = [''http://b.com''],
              visited = [''https://b.com'', ''https://www.b.com''],
              forms = [login_form, search_form]\<rparr>"
  let ?s3 = "\<lparr>toVisit = [],
              visited = [''https://b.com'', ''https://www.b.com'', ''http://b.com''],
              forms = [login_form, search_form]\<rparr>"
  have s0: "seed ''b.com'' = ?s0" by (simp add: seed_eq)
  have c0: "loop_continues ?s0" and c1: "loop_continues ?s1" and c2: "loop_continues ?s2"
    and c3: "\<not> loop_continues ?s3"
    by (simp_all add: loop_continues_def)
  have t1: "crawl_step form_renderer ''b.com'' ?s0 = ?s1"
    by (simp add: crawl_step_def set_add_def visit_page_def enqueue_def site_b
          form_renderer_pages)
  have t2: "crawl_step form_renderer ''b.com'' ?s1 = ?s2"
    by (simp add: crawl_step_def set_add_def visit_page_def form_renderer_pages)
  have t3: "crawl_step form_renderer ''b.com'' ?s2 = ?s3"
    by (simp add: crawl_step_def set_add_def visit_page_def form_renderer_pages)
  show ?thesis
    unfolding s0
    by (simp only: crawl_loop_continue [OF c0] t1 crawl_loop_continue [OF c1] t2
          crawl_loop_continue [OF c2] t3 crawl_loop_stop [OF c3])
qed

lemma crawl_dead_a:
  "crawl_loop dead_renderer ''a.com'' (seed ''a.com'')
   = \<lparr>toVisit = [],
      visited = [''https://a.com'', ''https://www.a.com'', ''http://a.com''],
      forms = []\<rparr>"
proof -
  let ?s0 = "\<lparr>toVisit = [''https://a.com'', ''https://www.a.com'', ''http://a.com''],
              visited = [], forms = []\<rparr>"
  let ?s1 = "\<lparr>toVisit = [''https://www.a.com'', ''http://a.com''],
              visited = [''https://a.com''], forms = []\<rparr>"
  let ?s2 = "\<lparr>toVisit = [''http://a.com''],
              visited = [''https://a.com'', ''https://www.a.com''], forms = []\<rparr>"
  let ?s3 = "\<lparr>toVisit = [],
              visited = [''https://a.com'', ''https://www.a.com'', ''http://a.com''],
              forms = []\<rparr>"
  have s0: "seed ''a.com'' = ?s0" by (simp add: seed_eq)
  have c0: "loop_continues ?s0" and c1: "loop_continues ?s1" and c2: "loop_continues ?s2"
    and c3: "\<not> loop_continues ?s3"
    by (simp_all add: loop_continues_def)
  have g: "\<And>u. goto_fails dead_renderer u" by (simp add: dead_renderer_def)
  have t1: "crawl_step dead_renderer ''a.com'' ?s0 = ?s1"
    by (simp add: crawl_step_def set_add_def visit_page_def g)
  have t2: "crawl_step dead_renderer ''a.com'' ?s1 = ?s2"
    by (simp add: crawl_step_def set_add_def visit_page_def g)
  have t3: "crawl_step dead_renderer ''a.com'' ?s2 = ?s3"
    by (simp add: crawl_step_def set_add_def visit_page_def g)
  show ?thesis
    unfolding s0
    by (simp only: crawl_loop_continue [OF c0] t1 crawl_loop_continue [OF c1] t2
          crawl_loop_continue [OF c2] t3 crawl_loop_stop [OF c3])
qed

lemma crawlDomain_form_b:
  "outcome (crawlDomain form_renderer ''b.com'') = Inr [login_form, search_form]"
proof -
  have "\<not> launch_fails form_renderer" "\<not> newContext_fails form_renderer"
    "\<not> newPage_fails form_renderer" "\<not> close_fails form_renderer"
    by (simp_all add: form_renderer_def)
  then show ?thesis
    by (simp add: crawlDomain_def base_b crawl_form_b)
qed

lemma crawlDomain_dead_a: "outcome (crawlDomain dead_renderer ''a.com'') = Inr []"
proof -
  have "\<not> launch_fails dead_renderer" "\<not> newContext_fails dead_renderer"
    "\<not> newPage_fails dead_renderer" "\<not> close_fails dead_renderer"
    by (simp_all add: dead_renderer_def)
  then show ?thesis
    by (simp add: crawlDomain_def base_a crawl_dead_a)
qed

theorem frontier_caps_witness:
  "within_caps (crawl_loop form_renderer (baseDomain_of ''b.com'') (seed ''b.com''))
   \<and> crawl_step dead_renderer ''b.com''
        \<lparr>toVisit = [''https://b.com'', ''http://b.com''], visited = [''https://b.com''],
         forms = []\<rparr>
       = \<lparr>toVisit = [''http://b.com''], visited = [''https://b.com''], forms = []\<rparr>"
  using frontier_caps [where r = form_renderer and d = "''b.com''"]
    frontier_caps [where r = dead_renderer and b = "''b.com''" and url = "''https://b.com''"
      and rest = "[''http://b.com'']"
      and s = "\<lparr>toVisit = [''https://b.com'', ''http://b.com''],
                 visited = [''https://b.com''], forms = []\<rparr>"]
  by simp

text \<open>
  C7, as the code has it. When the browser is launched and its context and page are
  created, \<^verbatim>\<open>browser.close()\<close> is called before \<open>crawlDomain\<close> returns: the visit loop
  ends (\<open>crawl_loop\<close> is total), every failure of a navigation or of a page script is
  caught within the page's round, and only \<^verbatim>\<open>close\<close> itself can still raise.
\<close>

theorem crawlDomain_closes_browser:
  assumes "\<not> launch_fails r" and "\<not> newContext_fails r" and "\<not> newPage_fails r"
  shows "close_called (crawlDomain r d)
       \<and> outcome (crawlDomain r d)
           = (if close_fails r then Inl RendererError
              else Inr (forms (crawl_loop r (baseDomain_of d) (seed d))))"
  using assms by (simp add: crawlDomain_def Let_def)

theorem crawlDomain_closes_browser_witness:
  "close_called (crawlDomain form_renderer ''b.com'')
   \<and> outcome (crawlDomain form_renderer ''b.com'') = Inr [login_form, search_form]"
proof -
  have f: "\<not> launch_fails form_renderer" "\<not> newContext_fails form_renderer"
    "\<not> newPage_fails form_renderer"
    by (simp_all add: form_renderer_def)
  have c: "\<not> close_fails form_renderer"
    by (simp add: form_renderer_def)
  from crawlDomain_closes_browser [OF f, of "''b.com''"] c show ?thesis
    by (simp add: base_b crawl_form_b)
qed

text \<open>
  C7 as the specification words it fails: when \<^verbatim>\<open>browser.newContext\<close> throws, the browser
  has been launched and \<open>crawlDomain\<close> raises without calling \<^verbatim>\<open>browser.close()\<close>.
\<close>

theorem crawlDomain_leaves_browser_open:
  "browser_launched (crawlDomain (dead_renderer\<lparr>newContext_fails := True\<rparr>) ''a.com'')
   \<and> \<not> close_called (crawlDomain (dead_renderer\<lparr>newContext_fails := True\<rparr>) ''a.com'')
   \<and> outcome (crawlDomain (dead_renderer\<lparr>newContext_fails := True\<rparr>) ''a.com'')
       = Inl RendererError"
  by (simp add: crawlDomain_def dead_renderer_def)

section \<open>Properties of the Scan State Store\<close>

lemma written_scan_doc: "written (scan_doc s) = scan_doc s"
  by (cases "lastUpdate s") (simp_all add: scan_doc_def comp_def)

lemma default_is_scan_doc: "default_stats = scan_doc \<lparr>scanned = [], lastUpdate = None\<rparr>"
  by (simp add: default_stats_def scan_doc_def)

lemma push_scanned_scan_doc:
  "push_scanned (scan_doc s) d = Inr (scan_doc (s\<lparr>scanned := scanned s @ [d]\<rparr>))"
  by (simp add: push_scanned_def get_prop_def set_prop_def scan_doc_def)

lemma stamp_scan_doc:
  "set_prop (scan_doc s) ''lastUpdate'' (JStr t) = scan_doc (s\<lparr>lastUpdate := Some t\<rparr>)"
  by (simp add: set_prop_def scan_doc_def)

lemma clear_scan_doc:
  "set_prop (scan_doc s) ''scanned'' (JArr []) = scan_doc (s\<lparr>scanned := []\<rparr>)"
  by (simp add: set_prop_def scan_doc_def)

lemma get_scanned_scan_doc:
  "get_prop (scan_doc s) ''scanned'' = Some (JArr (map JStr (scanned s)))"
  by (simp add: get_prop_def scan_doc_def)

lemma set_scanned_scan_doc:
  "set_prop (scan_doc s) ''scanned'' (JArr (map JStr ds)) = scan_doc (s\<lparr>scanned := ds\<rparr>)"
  by (simp add: set_prop_def scan_doc_def)

lemma scannedSet_of_scan_doc: "scannedSet_of (scan_doc s) = Inr (map JStr (scanned s))"
  by (simp add: scannedSet_of_def scan_doc_def get_prop_def truthy_def)

text \<open>
  C4, as the code has it. When the state file is missing, cannot be read, or holds a
  text that \<^verbatim>\<open>JSON.parse\<close> rejects, \<open>loadScannedDomains\<close> returns
  \<^verbatim>\<open>{scanned: [], lastUpdate: null}\<close>; it has no error result, so it never raises. When
  the file is read and its text parses, the value parsed is returned as it is, of
  whatever shape: nothing is checked.
\<close>

theorem loadScannedDomains_result:
  "(stat_file ss = None \<or> stat_read_fails ss \<or> stat_file ss = Some StatsGarbled
      \<longrightarrow> loadScannedDomains ss = default_stats)
   \<and> (\<not> stat_read_fails ss \<and> stat_file ss = Some (StatsJson v) \<longrightarrow> loadScannedDomains ss = v)
   \<and> default_stats = scan_doc \<lparr>scanned = [], lastUpdate = None\<rparr>"
  by (auto simp: loadScannedDomains_def readFile_stats_def JSON_parse_stats_def
        default_stats_def scan_doc_def)

theorem loadScannedDomains_result_witness:
  "loadScannedDomains \<lparr>stat_file = None, stat_read_fails = False, stat_write_fails = False\<rparr>
     = scan_doc \<lparr>scanned = [], lastUpdate = None\<rparr>
   \<and> loadScannedDomains
        \<lparr>stat_file = Some (StatsJson (scan_doc \<lparr>scanned = [''a.com''], lastUpdate = None\<rparr>)),
         stat_read_fails = True, stat_write_fails = False\<rparr>
     = scan_doc \<lparr>scanned = [], lastUpdate = None\<rparr>
   \<and> loadScannedDomains
        \<lparr>stat_file = Some StatsGarbled, stat_read_fails = False, stat_write_fails = False\<rparr>
     = scan_doc \<lparr>scanned = [], lastUpdate = None\<rparr>
   \<and> loadScannedDomains
        \<lparr>stat_file = Some (StatsJson (scan_doc \<lparr>scanned = [''a.com''], lastUpdate = Some ''T''\<rparr>)),
         stat_read_fails = False, stat_write_fails = False\<rparr>
     = scan_doc \<lparr>scanned = [''a.com''], lastUpdate = Some ''T''\<rparr>"
  using
    loadScannedDomains_result
      [of "\<lparr>stat_file = None, stat_read_fails = False, stat_write_fails = False\<rparr>" JNull]
    loadScannedDomains_result
      [of "\<lparr>stat_file = Some (StatsJson (scan_doc \<lparr>scanned = [''a.com''], lastUpdate = None\<rparr>)),
            stat_read_fails = True, stat_write_fails = False\<rparr>" JNull]
    loadScannedDomains_result
      [of "\<lparr>stat_file = Some StatsGarbled, stat_read_fails = False, stat_write_fails = False\<rparr>"
          JNull]
    loadScannedDomains_result
      [of "\<lparr>stat_file = Some (StatsJson (scan_doc \<lparr>scanned = [''a.com''], lastUpdate = Some ''T''\<rparr>)),
            stat_read_fails = False, stat_write_fails = False\<rparr>"
          "scan_doc \<lparr>scanned = [''a.com''], lastUpdate = Some ''T''\<rparr>"]
  by simp

lemma example_dirs: "ensureDirectories example_world = Inr ()"
  "ensureDirectories reversed_world = Inr ()"
  by (simp_all add: ensureDirectories_def example_world_def reversed_world_def)

lemma example_feed:
  "fetchDomains (Some feed_ab) None = [''a.com'', ''b.com'']"
  "fetchDomains (Some feed_ba) None = [''b.com'', ''a.com'']"
  by code_simp+

lemma example_loads:
  "loadScannedDomains no_state = scan_doc \<lparr>scanned = [], lastUpdate = None\<rparr>"
  "loadScannedDomains all_scanned
     = scan_doc \<lparr>scanned = [''b.com'', ''a.com''], lastUpdate = Some ''T''\<rparr>"
  "loadScannedDomains empty_object_state = JObj []"
  "loadScannedDomains null_state = JNull"
  by (simp_all add: loadScannedDomains_def readFile_stats_def JSON_parse_stats_def no_state_def
        all_scanned_def empty_object_state_def null_state_def default_is_scan_doc)

lemma example_unscanned:
  "unscanned_of example_world no_state = Inr [''a.com'', ''b.com'']"
  "unscanned_of reversed_world no_state = Inr [''b.com'', ''a.com'']"
  "unscanned_of example_world all_scanned = Inr []"
  "unscanned_of example_world empty_object_state = Inr [''a.com'', ''b.com'']"
  "unscanned_of example_world null_state = Inl TypeError"
  by (simp_all add: unscanned_of_def example_world_def reversed_world_def example_feed
        example_loads scannedSet_of_scan_doc)
     (simp_all add: scannedSet_of_def get_prop_def example_feed)

text \<open>
  C4 as the specification words it fails for a file whose text is well-formed JSON of
  another shape than the state's: the text \<^verbatim>\<open>{}\<close> is returned as the empty object, not
  as the default state, and the text \<^verbatim>\<open>null\<close> is returned as \<^verbatim>\<open>null\<close>, on which
  \<open>main\<close> throws a \<^verbatim>\<open>TypeError\<close> at line 246, before any crawl.
\<close>

theorem loadScannedDomains_returns_other_shapes:
  "loadScannedDomains empty_object_state = JObj []
   \<and> JObj [] \<noteq> default_stats
   \<and> loadScannedDomains null_state = JNull
   \<and> fst (main example_world null_state (healthy_store [])) = Some TypeError
   \<and> crawled (snd (main example_world null_state (healthy_store []))) = []"
  using example_unscanned(5)
  by (simp add: example_loads default_stats_def main_def example_dirs Let_def unscanned_of_def
        split: sum.splits)

section \<open>Properties of the Run Controller\<close>

lemma push_scanned_object:
  assumes "map_of ps ''scanned'' = Some (JArr xs)"
  shows "push_scanned (JObj ps) d = Inr (JObj (AList.update ''scanned'' (JArr (xs @ [JStr d])) ps))"
  using assms by (simp add: push_scanned_def get_prop_def set_prop_def)

lemma mark_scanned_eq:
  "mark_scanned w d st =
     (case push_scanned (stats st) d of
        Inl e \<Rightarrow> (Some e, st)
      | Inr stats1 \<Rightarrow>
          if stat_write_fails (state_files st) then (Some WriteError, stamped w stats1 st)
          else (None, persisted (stamped w stats1 st)))"
  by (simp add: mark_scanned_def stamped_def persisted_def saveScannedDomains_def Let_def
        split: sum.splits)

lemma attempt_no_forms:
  assumes "no_forms (crawl_of w d)" and "\<not> stat_write_fails (state_files st)"
    and "push_scanned (stats st) d = Inr stats1"
  shows "attempt w d st = (None, persisted (stamped w stats1 (st\<lparr>crawled := crawled st @ [d]\<rparr>)))"
proof (cases "crawl_of w d")
  case (Inl e)
  with assms(2,3) show ?thesis
    by (simp add: attempt_def try_block_def crawl_of_def Let_def mark_scanned_eq)
next
  case (Inr found)
  with assms(1) have "found = []" by (simp add: no_forms_def)
  with Inr assms(2,3) show ?thesis
    by (simp add: attempt_def try_block_def crawl_of_def Let_def mark_scanned_eq)
qed

lemma attempt_save_fails:
  assumes "crawl_of w d = Inr found" and "found \<noteq> []"
    and "saveResults (result_files st) found = Inl e"
  shows "attempt w d st = mark_scanned w d (st\<lparr>crawled := crawled st @ [d]\<rparr>)"
  using assms by (simp add: attempt_def try_block_def crawl_of_def Let_def)

lemma attempt_saved:
  assumes "crawl_of w d = Inr found" and "found \<noteq> []"
    and "saveResults (result_files st) found = Inr rs'"
    and "\<not> stat_write_fails (state_files st)"
    and "push_scanned (stats st) d = Inr stats1"
  shows "attempt w d st =
     (None, persisted (stamped w stats1
              (st\<lparr>crawled := crawled st @ [d], result_files := rs', formsFound := True\<rparr>)))"
  using assms
  by (simp add: attempt_def try_block_def crawl_of_def Let_def mark_scanned_eq)

lemma attempt_push_fails:
  assumes "no_forms (crawl_of w d)" and "push_scanned (stats st) d = Inl e"
  shows "attempt w d st = (Some e, st\<lparr>crawled := crawled st @ [d]\<rparr>)"
proof (cases "crawl_of w d")
  case (Inl e')
  with assms(2) show ?thesis
    by (simp add: attempt_def try_block_def crawl_of_def Let_def mark_scanned_eq)
next
  case (Inr found)
  with assms(1) have "found = []" by (simp add: no_forms_def)
  with Inr assms(2) show ?thesis
    by (simp add: attempt_def try_block_def crawl_of_def Let_def mark_scanned_eq)
qed

lemma main_loop_stop:
  "formsFound st \<or> \<not> i < min (length u) MAX_DOMAIN_ATTEMPTS \<Longrightarrow> main_loop w u i st = (None, st)"
  by (subst main_loop.simps) auto

lemma main_loop_step:
  assumes "\<not> formsFound st" and "i < min (length u) MAX_DOMAIN_ATTEMPTS"
  shows "main_loop w u i st =
     (case attempt w (u ! i) st of
        (Some e, st1) \<Rightarrow> (Some e, st1)
      | (None, st1) \<Rightarrow> main_loop w u (i + 1) st1)"
  using assms by (subst main_loop.simps) simp

lemma main_loop_save_fails:
  assumes "\<not> formsFound st" and "i < min (length u) MAX_DOMAIN_ATTEMPTS"
    and "crawl_of w (u ! i) = Inr found" and "found \<noteq> []"
    and "saveResults (result_files st) found = Inl e"
  shows "main_loop w u i st =
     (case push_scanned (stats st) (u ! i) of
        Inl e' \<Rightarrow> (Some e', st\<lparr>crawled := crawled st @ [u ! i]\<rparr>)
      | Inr stats1 \<Rightarrow>
          if stat_write_fails (state_files st)
          then (Some WriteError, stamped w stats1 (st\<lparr>crawled := crawled st @ [u ! i]\<rparr>))
          else main_loop w u (i + 1)
                 (persisted (stamped w stats1 (st\<lparr>crawled := crawled st @ [u ! i]\<rparr>))))"
  by (simp add: main_loop_step [OF assms(1,2)] attempt_save_fails [OF assms(3,4,5)]
        mark_scanned_eq split: sum.splits)

lemma main_loop_no_forms:
  assumes "\<not> formsFound st" and "i < min (length u) MAX_DOMAIN_ATTEMPTS"
    and "no_forms (crawl_of w (u ! i))"
    and "\<not> stat_write_fails (state_files st)"
    and "push_scanned (stats st) (u ! i) = Inr stats1"
  shows "main_loop w u i st =
     main_loop w u (i + 1)
       (persisted (stamped w stats1 (st\<lparr>crawled := crawled st @ [u ! i]\<rparr>)))"
  by (simp add: main_loop_step [OF assms(1,2)] attempt_no_forms [OF assms(3,4,5)])

lemma main_loop_push_fails:
  assumes "\<not> formsFound st" and "i < min (length u) MAX_DOMAIN_ATTEMPTS"
    and "no_forms (crawl_of w (u ! i))"
    and "push_scanned (stats st) (u ! i) = Inl e"
  shows "main_loop w u i st = (Some e, st\<lparr>crawled := crawled st @ [u ! i]\<rparr>)"
  by (simp add: main_loop_step [OF assms(1,2)] attempt_push_fails [OF assms(3,4)])

lemma main_loop_saved:
  assumes "\<not> formsFound st" and "i < min (length u) MAX_DOMAIN_ATTEMPTS"
    and "crawl_of w (u ! i) = Inr found" and "found \<noteq> []"
    and "saveResults (result_files st) found = Inr rs'"
    and "\<not> stat_write_fails (state_files st)"
    and "push_scanned (stats st) (u ! i) = Inr stats1"
  shows "main_loop w u i st =
     (None, persisted (stamped w stats1
              (st\<lparr>crawled := crawled st @ [u ! i], result_files := rs', formsFound := True\<rparr>)))"
  by (simp add: main_loop_step [OF assms(1,2)] attempt_saved [OF assms(3,4,5,6,7)]
        main_loop_stop persisted_def stamped_def)

lemma main_loop_no_forms_eq:
  assumes "\<not> formsFound st" and "i < min (length u) MAX_DOMAIN_ATTEMPTS"
    and "no_forms (crawl_of w (u ! i))"
    and "\<not> stat_write_fails (state_files st)"
  shows "main_loop w u i st =
     (case push_scanned (stats st) (u ! i) of
        Inl e \<Rightarrow> (Some e, st\<lparr>crawled := crawled st @ [u ! i]\<rparr>)
      | Inr stats1 \<Rightarrow>
          main_loop w u (i + 1)
            (persisted (stamped w stats1 (st\<lparr>crawled := crawled st @ [u ! i]\<rparr>))))"
proof (cases "push_scanned (stats st) (u ! i)")
  case (Inl e)
  with main_loop_push_fails [OF assms(1,2,3) Inl] show ?thesis by simp
next
  case (Inr stats1)
  with main_loop_no_forms [OF assms Inr] show ?thesis by simp
qed

lemma drop_take_step:
  assumes "i < N" and "N \<le> length u"
  shows "drop i (take N u) = u ! i # drop (i + 1) (take N u)"
proof -
  from assms have "i < length (take N u)" by simp
  from Cons_nth_drop_Suc [OF this] assms(1) show ?thesis by simp
qed

lemma update_update_commute:
  "k \<in> fst ` set ps \<Longrightarrow> k \<noteq> k'
   \<Longrightarrow> AList.update k v (AList.update k' v' ps) = AList.update k' v' (AList.update k v ps)"
  by (induction ps) auto

lemma restamp:
  assumes "map_of ps ''scanned'' = Some x"
  shows "AList.update ''lastUpdate'' t'
           (AList.update ''scanned'' a'
              (AList.update ''lastUpdate'' t (AList.update ''scanned'' a ps)))
       = AList.update ''lastUpdate'' t' (AList.update ''scanned'' a' ps)"
proof -
  from assms have "''scanned'' \<in> fst ` set ps"
    by (force dest: map_of_SomeD)
  then have "''scanned'' \<in> fst ` set (AList.update ''scanned'' a ps)"
    by (simp add: dom_update)
  then have "AList.update ''scanned'' a' (AList.update ''lastUpdate'' t (AList.update ''scanned'' a ps))
      = AList.update ''lastUpdate'' t (AList.update ''scanned'' a' (AList.update ''scanned'' a ps))"
    by (rule update_update_commute) simp
  then show ?thesis by (simp add: update_last)
qed

lemma main_loop_first_success:
  assumes "N \<le> min (length u) MAX_DOMAIN_ATTEMPTS"
    and "crawl_of w (u ! (N - 1)) = Inr found" and "found \<noteq> []"
  shows "i < N \<Longrightarrow> k = N - 1 - i
    \<Longrightarrow> \<forall>j. i \<le> j \<and> j < N - 1 \<longrightarrow> no_forms (crawl_of w (u ! j))
    \<Longrightarrow> \<not> formsFound st \<Longrightarrow> \<not> stat_write_fails (state_files st)
    \<Longrightarrow> saveResults (result_files st) found = Inr rs'
    \<Longrightarrow> stats st = JObj ps \<Longrightarrow> map_of ps ''scanned'' = Some (JArr xs)
    \<Longrightarrow> fst (main_loop w u i st) = None
      \<and> crawled (snd (main_loop w u i st)) = crawled st @ drop i (take N u)
      \<and> stats (snd (main_loop w u i st))
          = JObj (AList.update ''lastUpdate'' (JStr (clock w (ticks st + k)))
                   (AList.update ''scanned'' (JArr (xs @ map JStr (drop i (take N u)))) ps))
      \<and> result_files (snd (main_loop w u i st)) = rs'
      \<and> formsFound (snd (main_loop w u i st))
      \<and> state_files (snd (main_loop w u i st))
          = (state_files st)
              \<lparr>stat_file := Some (StatsJson (written (stats (snd (main_loop w u i st)))))\<rparr>"
proof (induction k arbitrary: i st ps xs)
  case 0
  then have i: "i = N - 1" and b: "i < min (length u) MAX_DOMAIN_ATTEMPTS"
    using assms(1) by simp_all
  from 0 assms(1) have d: "drop i (take N u) = [u ! i]"
    using drop_take_step [of i N u] by (simp add: i)
  from assms(2) have c: "crawl_of w (u ! i) = Inr found" by (simp add: i)
  have p: "push_scanned (stats st) (u ! i)
      = Inr (JObj (AList.update ''scanned'' (JArr (xs @ [JStr (u ! i)])) ps))"
    using "0.prems"(7,8) by (simp add: push_scanned_object)
  show ?case
    unfolding main_loop_saved [OF "0.prems"(4) b c assms(3) "0.prems"(6) "0.prems"(5) p] d
    by (simp add: persisted_def stamped_def set_prop_def)
next
  case (Suc k)
  then have lt: "i < N - 1" and b: "i < min (length u) MAX_DOMAIN_ATTEMPTS"
    using assms(1) by simp_all
  from Suc.prems(3) lt have nf: "no_forms (crawl_of w (u ! i))" by simp
  define ps1 where "ps1 = AList.update ''lastUpdate'' (JStr (clock w (ticks st)))
                (AList.update ''scanned'' (JArr (xs @ [JStr (u ! i)])) ps)"
  define st1 where "st1 = persisted (stamped w
                (JObj (AList.update ''scanned'' (JArr (xs @ [JStr (u ! i)])) ps))
                (st\<lparr>crawled := crawled st @ [u ! i]\<rparr>))"
  have p: "push_scanned (stats st) (u ! i)
      = Inr (JObj (AList.update ''scanned'' (JArr (xs @ [JStr (u ! i)])) ps))"
    using Suc.prems(7,8) by (simp add: push_scanned_object)
  have step: "main_loop w u i st = main_loop w u (i + 1) st1"
    unfolding st1_def by (rule main_loop_no_forms [OF Suc.prems(4) b nf Suc.prems(5) p])
  from lt assms(1) have d: "drop i (take N u) = u ! i # drop (i + 1) (take N u)"
    using drop_take_step [of i N u] by simp
  have s1: "stats st1 = JObj ps1"
    and c1: "crawled st1 = crawled st @ [u ! i]"
    and t1: "ticks st1 = ticks st + 1"
    and f1: "formsFound st1 = formsFound st"
    and r1: "result_files st1 = result_files st"
    and w1: "stat_write_fails (state_files st1) = stat_write_fails (state_files st)"
    and o1: "\<And>x. (state_files st1)\<lparr>stat_file := x\<rparr> = (state_files st)\<lparr>stat_file := x\<rparr>"
    by (simp_all add: st1_def ps1_def persisted_def stamped_def set_prop_def)
  have m1: "map_of ps1 ''scanned'' = Some (JArr (xs @ [JStr (u ! i)]))"
    by (simp add: ps1_def update_conv')
  have ih: "fst (main_loop w u (i + 1) st1) = None
      \<and> crawled (snd (main_loop w u (i + 1) st1)) = crawled st1 @ drop (i + 1) (take N u)
      \<and> stats (snd (main_loop w u (i + 1) st1))
          = JObj (AList.update ''lastUpdate'' (JStr (clock w (ticks st1 + k)))
                   (AList.update ''scanned''
                      (JArr ((xs @ [JStr (u ! i)]) @ map JStr (drop (i + 1) (take N u)))) ps1))
      \<and> result_files (snd (main_loop w u (i + 1) st1)) = rs'
      \<and> formsFound (snd (main_loop w u (i + 1) st1))
      \<and> state_files (snd (main_loop w u (i + 1) st1))
          = (state_files st1)
              \<lparr>stat_file := Some (StatsJson (written (stats (snd (main_loop w u (i + 1) st1)))))\<rparr>"
  proof (rule Suc.IH)
    show "i + 1 < N" using lt by simp
    show "k = N - 1 - (i + 1)" using Suc.prems(2) by simp
    show "\<forall>j. i + 1 \<le> j \<and> j < N - 1 \<longrightarrow> no_forms (crawl_of w (u ! j))"
      using Suc.prems(3) by simp
    show "\<not> formsFound st1" using Suc.prems(4) by (simp add: f1)
    show "\<not> stat_write_fails (state_files st1)" using Suc.prems(5) by (simp add: w1)
    show "saveResults (result_files st1) found = Inr rs'" using Suc.prems(6) by (simp add: r1)
    show "stats st1 = JObj ps1" by (rule s1)
    show "map_of ps1 ''scanned'' = Some (JArr (xs @ [JStr (u ! i)]))" by (rule m1)
  qed
  have mm: "AList.update ''lastUpdate'' (JStr (clock w (ticks st1 + k)))
                   (AList.update ''scanned''
                      (JArr ((xs @ [JStr (u ! i)]) @ map JStr (drop (i + 1) (take N u)))) ps1)
      = AList.update ''lastUpdate'' (JStr (clock w (ticks st + Suc k)))
                   (AList.update ''scanned'' (JArr (xs @ map JStr (drop i (take N u)))) ps)"
    unfolding d t1 ps1_def restamp [OF Suc.prems(8)] by simp
  from ih have "fst (main_loop w u i st) = None"
    unfolding step by simp
  moreover from ih have "crawled (snd (main_loop w u i st)) = crawled st @ drop i (take N u)"
    unfolding step c1 d by simp
  moreover from ih have "stats (snd (main_loop w u i st))
          = JObj (AList.update ''lastUpdate'' (JStr (clock w (ticks st + Suc k)))
                   (AList.update ''scanned'' (JArr (xs @ map JStr (drop i (take N u)))) ps))"
    unfolding step mm by blast
  moreover from ih have "result_files (snd (main_loop w u i st)) = rs'"
    unfolding step by simp
  moreover from ih have "formsFound (snd (main_loop w u i st))"
    unfolding step by simp
  moreover from ih have "state_files (snd (main_loop w u i st))
          = (state_files st)
              \<lparr>stat_file := Some (StatsJson (written (stats (snd (main_loop w u i st)))))\<rparr>"
    unfolding step o1 by blast
  ultimately show ?case by blast
qed

lemma main_runs_loop:
  assumes "ensureDirectories w = Inr ()" and "unscanned_of w ss = Inr u" and "u \<noteq> []"
  shows "main w ss rs =
     main_loop w u 0
       \<lparr>stats = loadScannedDomains ss, state_files = ss, result_files = rs,
        ticks = 0, formsFound = False, crawled = []\<rparr>"
  using assms unfolding unscanned_of_def
  by (auto simp add: main_def Let_def split: sum.splits)

text \<open>
  C1, as the code has it. In a run whose directories exist and whose loaded state has
  an array as its property \<^verbatim>\<open>scanned\<close>, let the \<open>N\<close>-th unscanned domain, with \<open>N\<close> at
  most the number of unscanned domains and at most 10, be the first whose crawl yields a
  form, and let the writes of the run succeed (the state file can be written, and
  \<open>saveResults\<close> of the forms found succeeds). Then \<open>main\<close> returns normally, it has
  crawled exactly the first \<open>N\<close> unscanned domains, in their order, it has appended
  these \<open>N\<close> domains to \<open>scanned\<close>, set \<open>lastUpdate\<close> to the time of the \<open>N\<close>-th reading
  of the clock and persisted that state, and the result store is the one \<open>saveResults\<close>
  makes of the store the run found and the \<open>N\<close>-th domain's forms.
\<close>

theorem first_success_wins:
  assumes "ensureDirectories w = Inr ()"
    and "get_prop (loadScannedDomains ss) ''scanned'' = Some (JArr xs)"
    and "unscanned_of w ss = Inr u"
    and "0 < N" and "N \<le> min (length u) MAX_DOMAIN_ATTEMPTS"
    and "\<forall>j. j < N - 1 \<longrightarrow> no_forms (crawl_of w (u ! j))"
    and "crawl_of w (u ! (N - 1)) = Inr found" and "found \<noteq> []"
    and "\<not> stat_write_fails ss" and "saveResults rs found = Inr rs'"
  shows "fst (main w ss rs) = None
     \<and> crawled (snd (main w ss rs)) = take N u
     \<and> stats (snd (main w ss rs))
         = set_prop (set_prop (loadScannedDomains ss) ''scanned'' (JArr (xs @ map JStr (take N u))))
             ''lastUpdate'' (JStr (clock w (N - 1)))
     \<and> (\<forall>s0. loadScannedDomains ss = scan_doc s0
           \<longrightarrow> stats (snd (main w ss rs))
               = scan_doc \<lparr>scanned = scanned s0 @ take N u, lastUpdate = Some (clock w (N - 1))\<rparr>)
     \<and> result_files (snd (main w ss rs)) = rs'
     \<and> formsFound (snd (main w ss rs))
     \<and> state_files (snd (main w ss rs))
         = ss\<lparr>stat_file := Some (StatsJson (written (stats (snd (main w ss rs)))))\<rparr>"
proof -
  let ?st = "\<lparr>stats = loadScannedDomains ss, state_files = ss, result_files = rs,
              ticks = 0, formsFound = False, crawled = []\<rparr>"
  from assms(2) obtain ps where ps: "loadScannedDomains ss = JObj ps"
    and m: "map_of ps ''scanned'' = Some (JArr xs)"
    by (cases "loadScannedDomains ss") (simp_all add: get_prop_def)
  from assms(4,5) have ne: "u \<noteq> []" by auto
  have z: "\<forall>j. 0 \<le> j \<and> j < N - 1 \<longrightarrow> no_forms (crawl_of w (u ! j))"
    using assms(6) by simp
  have run: "main w ss rs = main_loop w u 0 ?st"
    by (rule main_runs_loop [OF assms(1) assms(3) ne])
  have loop: "fst (main_loop w u 0 ?st) = None
      \<and> crawled (snd (main_loop w u 0 ?st)) = crawled ?st @ drop 0 (take N u)
      \<and> stats (snd (main_loop w u 0 ?st))
          = JObj (AList.update ''lastUpdate'' (JStr (clock w (ticks ?st + (N - 1))))
                   (AList.update ''scanned'' (JArr (xs @ map JStr (drop 0 (take N u)))) ps))
      \<and> result_files (snd (main_loop w u 0 ?st)) = rs'
      \<and> formsFound (snd (main_loop w u 0 ?st))
      \<and> state_files (snd (main_loop w u 0 ?st))
          = (state_files ?st)
              \<lparr>stat_file := Some (StatsJson (written (stats (snd (main_loop w u 0 ?st)))))\<rparr>"
    by (rule main_loop_first_success [OF assms(5) assms(7) assms(8) assms(4) _ z])
       (simp_all add: assms(9,10) ps m)
  have shape: "\<forall>s0. loadScannedDomains ss = scan_doc s0
      \<longrightarrow> set_prop (set_prop (loadScannedDomains ss) ''scanned''
                (JArr (xs @ map JStr (take N u)))) ''lastUpdate'' (JStr (clock w (N - 1)))
          = scan_doc \<lparr>scanned = scanned s0 @ take N u, lastUpdate = Some (clock w (N - 1))\<rparr>"
  proof (intro allI impI)
    fix s0 assume l: "loadScannedDomains ss = scan_doc s0"
    with assms(2) have "xs = map JStr (scanned s0)"
      by (simp add: get_scanned_scan_doc)
    then have "xs @ map JStr (take N u) = map JStr (scanned s0 @ take N u)" by simp
    then show "set_prop (set_prop (loadScannedDomains ss) ''scanned''
                (JArr (xs @ map JStr (take N u)))) ''lastUpdate'' (JStr (clock w (N - 1)))
          = scan_doc \<lparr>scanned = scanned s0 @ take N u, lastUpdate = Some (clock w (N - 1))\<rparr>"
      unfolding l by (simp only: set_scanned_scan_doc stamp_scan_doc) (simp add: scan_doc_def)
  qed
  from loop have st: "stats (snd (main w ss rs))
         = set_prop (set_prop (loadScannedDomains ss) ''scanned'' (JArr (xs @ map JStr (take N u))))
             ''lastUpdate'' (JStr (clock w (N - 1)))"
    unfolding run ps by (simp add: set_prop_def)
  from loop have "fst (main w ss rs) = None" unfolding run by simp
  moreover from loop have "crawled (snd (main w ss rs)) = take N u" unfolding run by simp
  moreover note st
  moreover from shape have "\<forall>s0. loadScannedDomains ss = scan_doc s0
           \<longrightarrow> stats (snd (main w ss rs))
               = scan_doc \<lparr>scanned = scanned s0 @ take N u, lastUpdate = Some (clock w (N - 1))\<rparr>"
    unfolding st by blast
  moreover from loop have "result_files (snd (main w ss rs)) = rs'" unfolding run by simp
  moreover from loop have "formsFound (snd (main w ss rs))" unfolding run by simp
  moreover from loop have "state_files (snd (main w ss rs))
         = ss\<lparr>stat_file := Some (StatsJson (written (stats (snd (main w ss rs)))))\<rparr>"
    unfolding run by simp
  ultimately show ?thesis by blast
qed

text \<open>
  C5. In a run whose directories exist and in which no domain is unscanned, no crawl
  is attempted and the result store is left as it was; \<^verbatim>\<open>scanned\<close> is assigned the empty
  list and \<^verbatim>\<open>lastUpdate\<close> the time of the run's first reading of the clock, so that a
  state of the shape \<^verbatim>\<open>{scanned, lastUpdate}\<close> becomes \<^verbatim>\<open>{scanned: [], lastUpdate: time}\<close>
  and every state that is an object has these two properties afterwards; that state
  is what \<open>saveScannedDomains\<close> is given: it is persisted when the state file can be
  written, and otherwise the write's exception leaves \<open>main\<close>.
\<close>

theorem full_reset:
  assumes "ensureDirectories w = Inr ()" and "unscanned_of w ss = Inr []"
  shows "crawled (snd (main w ss rs)) = []
    \<and> result_files (snd (main w ss rs)) = rs
    \<and> stats (snd (main w ss rs))
        = set_prop (set_prop (loadScannedDomains ss) ''scanned'' (JArr []))
            ''lastUpdate'' (JStr (clock w 0))
    \<and> (\<forall>s0. loadScannedDomains ss = scan_doc s0
          \<longrightarrow> stats (snd (main w ss rs)) = scan_doc \<lparr>scanned = [], lastUpdate = Some (clock w 0)\<rparr>
            \<and> written (stats (snd (main w ss rs)))
                = scan_doc \<lparr>scanned = [], lastUpdate = Some (clock w 0)\<rparr>)
    \<and> (\<forall>ps. loadScannedDomains ss = JObj ps
          \<longrightarrow> get_prop (stats (snd (main w ss rs))) ''scanned'' = Some (JArr [])
            \<and> get_prop (stats (snd (main w ss rs))) ''lastUpdate'' = Some (JStr (clock w 0)))
    \<and> (if stat_write_fails ss
        then fst (main w ss rs) = Some WriteError \<and> state_files (snd (main w ss rs)) = ss
        else fst (main w ss rs) = None
           \<and> state_files (snd (main w ss rs))
              = ss\<lparr>stat_file := Some (StatsJson (written (stats (snd (main w ss rs)))))\<rparr>)"
proof -
  have st: "stats (snd (main w ss rs))
        = set_prop (set_prop (loadScannedDomains ss) ''scanned'' (JArr []))
            ''lastUpdate'' (JStr (clock w 0))"
    using assms unfolding unscanned_of_def
    by (simp add: main_def saveScannedDomains_def Let_def split: sum.splits)
  have doc: "\<forall>s0. loadScannedDomains ss = scan_doc s0
          \<longrightarrow> stats (snd (main w ss rs)) = scan_doc \<lparr>scanned = [], lastUpdate = Some (clock w 0)\<rparr>
            \<and> written (stats (snd (main w ss rs)))
                = scan_doc \<lparr>scanned = [], lastUpdate = Some (clock w 0)\<rparr>"
    unfolding st by (simp add: clear_scan_doc stamp_scan_doc written_scan_doc) (simp add: scan_doc_def)
  have obj: "\<forall>ps. loadScannedDomains ss = JObj ps
          \<longrightarrow> get_prop (stats (snd (main w ss rs))) ''scanned'' = Some (JArr [])
            \<and> get_prop (stats (snd (main w ss rs))) ''lastUpdate'' = Some (JStr (clock w 0))"
    unfolding st by (simp add: set_prop_def get_prop_def update_conv')
  have rest: "crawled (snd (main w ss rs)) = []
    \<and> result_files (snd (main w ss rs)) = rs
    \<and> (if stat_write_fails ss
        then fst (main w ss rs) = Some WriteError \<and> state_files (snd (main w ss rs)) = ss
        else fst (main w ss rs) = None
           \<and> state_files (snd (main w ss rs))
              = ss\<lparr>stat_file := Some (StatsJson (written (stats (snd (main w ss rs)))))\<rparr>)"
    using assms unfolding unscanned_of_def
    by (simp add: main_def saveScannedDomains_def Let_def split: sum.splits)
  from st doc obj rest show ?thesis by blast
qed

text \<open>
  C9, as the code has it. When, in a round of the loop, the crawl yields forms and
  \<open>saveResults\<close> raises, the \<^verbatim>\<open>catch\<close> block takes the exception: the domain is
  appended to \<open>scanned\<close> (a state of the shape \<^verbatim>\<open>{scanned, lastUpdate}\<close> keeps that shape)
  and the state is written. An exception of the \<^verbatim>\<open>catch\<close> block itself leaves \<open>main\<close>
  and ends the run: the one of the push, when the state has no array \<^verbatim>\<open>scanned\<close>, or
  the one of the write of the state, when that fails too. Otherwise the loop goes on
  with the next domain, with \<open>formsFound\<close> still false and the result store unchanged.
\<close>

theorem result_write_failure_is_caught:
  assumes "\<not> formsFound st" and "i < min (length u) MAX_DOMAIN_ATTEMPTS"
    and "crawl_of w (u ! i) = Inr found" and "found \<noteq> []"
    and "saveResults (result_files st) found = Inl e"
  shows "main_loop w u i st =
     (case push_scanned (stats st) (u ! i) of
        Inl e' \<Rightarrow> (Some e', st\<lparr>crawled := crawled st @ [u ! i]\<rparr>)
      | Inr stats1 \<Rightarrow>
          if stat_write_fails (state_files st)
          then (Some WriteError, stamped w stats1 (st\<lparr>crawled := crawled st @ [u ! i]\<rparr>))
          else main_loop w u (i + 1)
                 (persisted (stamped w stats1 (st\<lparr>crawled := crawled st @ [u ! i]\<rparr>))))
   \<and> (\<forall>s. stats st = scan_doc s
        \<longrightarrow> push_scanned (stats st) (u ! i) = Inr (scan_doc (s\<lparr>scanned := scanned s @ [u ! i]\<rparr>))
          \<and> stats (stamped w (scan_doc (s\<lparr>scanned := scanned s @ [u ! i]\<rparr>))
                     (st\<lparr>crawled := crawled st @ [u ! i]\<rparr>))
              = scan_doc \<lparr>scanned = scanned s @ [u ! i], lastUpdate = Some (clock w (ticks st))\<rparr>)"
proof -
  have "\<forall>s. stats st = scan_doc s
        \<longrightarrow> push_scanned (stats st) (u ! i) = Inr (scan_doc (s\<lparr>scanned := scanned s @ [u ! i]\<rparr>))
          \<and> stats (stamped w (scan_doc (s\<lparr>scanned := scanned s @ [u ! i]\<rparr>))
                     (st\<lparr>crawled := crawled st @ [u ! i]\<rparr>))
              = scan_doc \<lparr>scanned = scanned s @ [u ! i], lastUpdate = Some (clock w (ticks st))\<rparr>"
    by (simp add: push_scanned_scan_doc stamped_def stamp_scan_doc) (simp add: scan_doc_def)
  with main_loop_save_fails [OF assms] show ?thesis by blast
qed

lemma example_crawls:
  "crawl_of example_world ''a.com'' = Inr []"
  "crawl_of example_world ''b.com'' = Inr [login_form, search_form]"
  "crawl_of reversed_world ''a.com'' = Inr []"
  "crawl_of reversed_world ''b.com'' = Inr [login_form, search_form]"
  by (simp_all add: crawl_of_def example_world_def reversed_world_def crawlDomain_form_b
        crawlDomain_dead_a)

lemma example_save:
  "saveResults (healthy_store []) [login_form, search_form]
   = Inr ((healthy_store [])
            \<lparr>shards := [(''forms.json'',
                 \<lparr>shard_size = 402,
                  shard_content = ShardJson (Rows [login_form, search_form])\<rparr>)]\<rparr>)"
  by (simp add: saveResults_def getNextResultFile_def readdir_def formFiles_of_def
        writeFile_def healthy_store_def)

lemma readonly_save: "saveResults readonly_store [login_form, search_form] = Inl WriteError"
  by (simp add: saveResults_def getNextResultFile_def readdir_def formFiles_of_def
        writeFile_def healthy_store_def readonly_store_def)

lemma garbled_save:
  "saveResults garbled_shard_store [login_form, search_form] = Inl SyntaxError"
proof -
  have r: "readdir garbled_shard_store = Inr [''forms.json'']"
    by (simp add: readdir_def garbled_shard_store_def healthy_store_def)
  have f: "formFiles_of [''forms.json''] = [''forms.json'']"
    by code_simp
  have st: "stat garbled_shard_store ''forms.json'' = Inr 7"
    by (simp add: stat_def garbled_shard_store_def healthy_store_def)
  have rd: "readFile garbled_shard_store ''forms.json'' = Inr ShardGarbled"
    by (simp add: readFile_def garbled_shard_store_def healthy_store_def)
  have "getNextResultFile garbled_shard_store = Inl SyntaxError"
    using getNextResultFile_nonempty [OF r]
    by (simp add: f sort_formFiles_def st rd JSON_parse_def MAX_FILE_SIZE_def)
  then show ?thesis by (simp add: saveResults_def)
qed

theorem first_success_wins_witness:
  "fst (main example_world no_state (healthy_store [])) = None
   \<and> crawled (snd (main example_world no_state (healthy_store []))) = [''a.com'', ''b.com'']
   \<and> stats (snd (main example_world no_state (healthy_store [])))
       = scan_doc \<lparr>scanned = [''a.com'', ''b.com''], lastUpdate = Some (clock example_world 1)\<rparr>
   \<and> shards (result_files (snd (main example_world no_state (healthy_store []))))
       = [(''forms.json'',
           \<lparr>shard_size = 402, shard_content = ShardJson (Rows [login_form, search_form])\<rparr>)]"
proof -
  have g: "get_prop (loadScannedDomains no_state) ''scanned'' = Some (JArr [])"
    by (simp add: example_loads get_scanned_scan_doc)
  have n: "(0::nat) < 2"
    "2 \<le> min (length [''a.com'', ''b.com'']) MAX_DOMAIN_ATTEMPTS"
    by (simp_all add: MAX_DOMAIN_ATTEMPTS_def)
  have z: "\<forall>j. j < 2 - 1 \<longrightarrow> no_forms (crawl_of example_world ([''a.com'', ''b.com''] ! j))"
    by (simp add: example_crawls no_forms_def)
  have f: "crawl_of example_world ([''a.com'', ''b.com''] ! (2 - 1))
      = Inr [login_form, search_form]"
    by (simp add: example_crawls)
  have e: "[login_form, search_form] \<noteq> []" by simp
  have s: "\<not> stat_write_fails no_state" by (simp add: no_state_def)
  from first_success_wins [OF example_dirs(1) g example_unscanned(1) n z f e s example_save]
  show ?thesis
    by (simp add: example_loads set_prop_def scan_doc_def)
qed

lemma garbled_run:
  "main reversed_world no_state garbled_shard_store =
     (None,
      \<lparr>stats = scan_doc \<lparr>scanned = [''b.com'', ''a.com''],
                         lastUpdate = Some (clock reversed_world 1)\<rparr>,
       state_files = no_state
         \<lparr>stat_file := Some (StatsJson
            (scan_doc \<lparr>scanned = [''b.com'', ''a.com''],
                       lastUpdate = Some (clock reversed_world 1)\<rparr>))\<rparr>,
       result_files = garbled_shard_store, ticks = 2, formsFound = False,
       crawled = [''b.com'', ''a.com'']\<rparr>)"
proof -
  have w: "\<not> stat_write_fails no_state" by (simp add: no_state_def)
  have ne: "[''b.com'', ''a.com''] \<noteq> []" by simp
  show ?thesis
    unfolding main_runs_loop [OF example_dirs(2) example_unscanned(2) ne]
    by (simp add: main_loop_save_fails [where found = "[login_form, search_form]"
            and e = SyntaxError]
          main_loop_no_forms_eq main_loop_stop example_crawls garbled_save no_forms_def
          persisted_def stamped_def MAX_DOMAIN_ATTEMPTS_def example_loads w
          push_scanned_scan_doc stamp_scan_doc written_scan_doc)
qed

lemma empty_object_run:
  "main example_world empty_object_state (healthy_store []) =
     (Some TypeError,
      \<lparr>stats = JObj [], state_files = empty_object_state, result_files = healthy_store [],
       ticks = 0, formsFound = False, crawled = [''a.com'']\<rparr>)"
proof -
  have w: "\<not> stat_write_fails empty_object_state" by (simp add: empty_object_state_def)
  have ne: "[''a.com'', ''b.com''] \<noteq> []" by simp
  have p: "\<And>d. push_scanned (JObj []) d = Inl TypeError"
    by (simp add: push_scanned_def get_prop_def)
  show ?thesis
    unfolding main_runs_loop [OF example_dirs(1) example_unscanned(4) ne]
    by (simp add: main_loop_no_forms_eq example_crawls no_forms_def
          MAX_DOMAIN_ATTEMPTS_def example_loads w p)
qed

text \<open>
  C1 as the specification words it fails when persisting the forms fails, or when the
  state loaded has no array \<^verbatim>\<open>scanned\<close>. With a shard \<^verbatim>\<open>forms.json\<close> whose text does not
  parse, \<open>saveResults\<close> raises on the forms of \<^verbatim>\<open>b.com\<close>, the first unscanned domain; the
  \<^verbatim>\<open>catch\<close> block takes the exception, the run goes on to crawl \<^verbatim>\<open>a.com\<close>, and no form is
  persisted. With the state file \<^verbatim>\<open>{}\<close>, the push on \<^verbatim>\<open>stats.scanned\<close> throws after the
  first crawl, in the \<^verbatim>\<open>try\<close> block and again in the \<^verbatim>\<open>catch\<close> block: the run ends with a
  \<^verbatim>\<open>TypeError\<close> after one attempt, although the second domain is the first that yields
  forms.
\<close>

theorem first_success_lost:
  "unscanned_of reversed_world no_state = Inr [''b.com'', ''a.com'']
   \<and> crawl_of reversed_world ''b.com'' = Inr [login_form, search_form]
   \<and> saveResults garbled_shard_store [login_form, search_form] = Inl SyntaxError
   \<and> fst (main reversed_world no_state garbled_shard_store) = None
   \<and> crawled (snd (main reversed_world no_state garbled_shard_store)) = [''b.com'', ''a.com'']
   \<and> \<not> formsFound (snd (main reversed_world no_state garbled_shard_store))
   \<and> result_files (snd (main reversed_world no_state garbled_shard_store)) = garbled_shard_store
   \<and> unscanned_of example_world empty_object_state = Inr [''a.com'', ''b.com'']
   \<and> crawl_of example_world ''a.com'' = Inr []
   \<and> crawl_of example_world ''b.com'' = Inr [login_form, search_form]
   \<and> fst (main example_world empty_object_state (healthy_store [])) = Some TypeError
   \<and> crawled (snd (main example_world empty_object_state (healthy_store []))) = [''a.com'']
   \<and> result_files (snd (main example_world empty_object_state (healthy_store [])))
       = healthy_store []"
  unfolding garbled_run empty_object_run
  by (simp add: example_crawls garbled_save example_unscanned)

theorem full_reset_witness:
  "fst (main example_world all_scanned (healthy_store [])) = None
   \<and> crawled (snd (main example_world all_scanned (healthy_store []))) = []
   \<and> stats (snd (main example_world all_scanned (healthy_store [])))
       = scan_doc \<lparr>scanned = [], lastUpdate = Some (clock example_world 0)\<rparr>
   \<and> stat_file (state_files (snd (main example_world all_scanned (healthy_store []))))
       = Some (StatsJson (scan_doc \<lparr>scanned = [], lastUpdate = Some (clock example_world 0)\<rparr>))"
proof -
  have s: "\<not> stat_write_fails all_scanned" by (simp add: all_scanned_def)
  from full_reset [OF example_dirs(1) example_unscanned(3), of "healthy_store []"] s
    example_loads(2)
  show ?thesis by (simp add: set_prop_def scan_doc_def)
qed

lemma readonly_run:
  "main reversed_world no_state readonly_store =
     (None,
      \<lparr>stats = scan_doc \<lparr>scanned = [''b.com'', ''a.com''],
                         lastUpdate = Some (clock reversed_world 1)\<rparr>,
       state_files = no_state
         \<lparr>stat_file := Some (StatsJson
            (scan_doc \<lparr>scanned = [''b.com'', ''a.com''],
                       lastUpdate = Some (clock reversed_world 1)\<rparr>))\<rparr>,
       result_files = readonly_store, ticks = 2, formsFound = False,
       crawled = [''b.com'', ''a.com'']\<rparr>)"
proof -
  have w: "\<not> stat_write_fails no_state" by (simp add: no_state_def)
  have ne: "[''b.com'', ''a.com''] \<noteq> []" by simp
  show ?thesis
    unfolding main_runs_loop [OF example_dirs(2) example_unscanned(2) ne]
    by (simp add: main_loop_save_fails [where found = "[login_form, search_form]"
            and e = WriteError]
          main_loop_no_forms_eq main_loop_stop example_crawls readonly_save no_forms_def
          persisted_def stamped_def MAX_DOMAIN_ATTEMPTS_def example_loads w
          push_scanned_scan_doc stamp_scan_doc written_scan_doc)
qed

text \<open>
  C9 as the specification words it fails: with a result store that rejects every write
  and a state file that can be written, the forms found on \<^verbatim>\<open>b.com\<close> are not persisted,
  no exception leaves \<open>main\<close>, and the run goes on to crawl \<^verbatim>\<open>a.com\<close>.
\<close>

theorem result_write_failure_does_not_end_run:
  "crawl_of reversed_world ''b.com'' = Inr [login_form, search_form]
   \<and> saveResults readonly_store [login_form, search_form] = Inl WriteError
   \<and> fst (main reversed_world no_state readonly_store) = None
   \<and> crawled (snd (main reversed_world no_state readonly_store)) = [''b.com'', ''a.com'']
   \<and> stats (snd (main reversed_world no_state readonly_store))
       = scan_doc \<lparr>scanned = [''b.com'', ''a.com''], lastUpdate = Some (clock reversed_world 1)\<rparr>
   \<and> \<not> formsFound (snd (main reversed_world no_state readonly_store))
   \<and> result_files (snd (main reversed_world no_state readonly_store)) = readonly_store"
  unfolding readonly_run
  by (simp add: example_crawls readonly_save)

theorem result_write_failure_is_caught_witness:
  "main_loop reversed_world [''b.com'', ''a.com''] 0
     \<lparr>stats = scan_doc \<lparr>scanned = [], lastUpdate = None\<rparr>, state_files = no_state,
      result_files = readonly_store, ticks = 0, formsFound = False, crawled = []\<rparr>
   = main_loop reversed_world [''b.com'', ''a.com''] 1
       \<lparr>stats = scan_doc \<lparr>scanned = [''b.com''], lastUpdate = Some (clock reversed_world 0)\<rparr>,
        state_files = no_state
          \<lparr>stat_file := Some (StatsJson
             (scan_doc \<lparr>scanned = [''b.com''], lastUpdate = Some (clock reversed_world 0)\<rparr>))\<rparr>,
        result_files = readonly_store, ticks = 1, formsFound = False, crawled = [''b.com'']\<rparr>"
proof -
  let ?st0 = "\<lparr>stats = scan_doc \<lparr>scanned = [], lastUpdate = None\<rparr>, state_files = no_state,
      result_files = readonly_store, ticks = 0, formsFound = False, crawled = []\<rparr>"
  have a: "\<not> formsFound ?st0" by simp
  have b: "0 < min (length [''b.com'', ''a.com'']) MAX_DOMAIN_ATTEMPTS"
    by (simp add: MAX_DOMAIN_ATTEMPTS_def)
  have c: "crawl_of reversed_world ([''b.com'', ''a.com''] ! 0) = Inr [login_form, search_form]"
    by (simp add: example_crawls)
  have d: "[login_form, search_form] \<noteq> []" by simp
  have e: "saveResults (result_files ?st0) [login_form, search_form] = Inl WriteError"
    by (simp add: readonly_save)
  have w: "\<not> stat_write_fails no_state" by (simp add: no_state_def)
  from result_write_failure_is_caught [OF a b c d e] w
  show ?thesis
    by (simp add: persisted_def stamped_def push_scanned_scan_doc stamp_scan_doc
          written_scan_doc)
qed

end
